theory Spec2Isabelle
  imports Main "HOL-Library.Sublist"
begin

section \<open>Values of the host language\<close>

text \<open>
  A thrown value is either an \<open>Error\<close> object carrying its message or some other value.
  The handlers of the program read it with
  \<^verbatim>\<open>error instanceof Error ? error.message : '<default>'\<close>.
\<close>

datatype exn = Error string | Thrown

definition messageOr :: "string \<Rightarrow> exn \<Rightarrow> string" where
  "messageOr dflt e = (case e of Error m \<Rightarrow> m | Thrown \<Rightarrow> dflt)"

text \<open>\<^verbatim>\<open>x || null\<close> on an optional string: the empty string is falsy.\<close>

definition orNull :: "string option \<Rightarrow> string option" where
  "orNull v = (case v of None \<Rightarrow> None | Some s \<Rightarrow> if s = [] then None else Some s)"




text \<open>\<^verbatim>\<open>xs.join(sep)\<close>.\<close>

fun join :: "string \<Rightarrow> string list \<Rightarrow> string" where
  "join sep [] = []"
| "join sep [x] = x"
| "join sep (x # y # ys) = x @ sep @ join sep (y # ys)"

text \<open>The two quote characters, which the string syntax cannot hold literally.\<close>

abbreviation (input) dq :: char where "dq \<equiv> CHR 0x22"
abbreviation (input) sq :: char where "sq \<equiv> CHR 0x27"

text \<open>\<^verbatim>\<open>s.startsWith(p)\<close>, \<^verbatim>\<open>s.endsWith(p)\<close>, \<^verbatim>\<open>s.includes(p)\<close>.\<close>

definition startsWith :: "string \<Rightarrow> string \<Rightarrow> bool" where
  "startsWith s p = (take (length p) s = p)"

definition endsWith :: "string \<Rightarrow> string \<Rightarrow> bool" where
  "endsWith s p = (length p \<le> length s \<and> drop (length s - length p) s = p)"

fun includesText :: "string \<Rightarrow> string \<Rightarrow> bool" where
  "includesText [] p = (p = [])"
| "includesText (x # xs) p = (startsWith (x # xs) p \<or> includesText xs p)"

text \<open>
  Strings are lists of 8-bit characters: the model covers texts whose code units are below
  256. Case folding (\<open>toUpperCase\<close>, and the canonical form used by a case-insensitive
  pattern) maps \<open>a\<close>..\<open>z\<close> to \<open>A\<close>..\<open>Z\<close>; every pattern character of the program is
  ASCII, and a character outside ASCII never folds to an ASCII one.
\<close>

definition canon :: "char \<Rightarrow> char" where
  "canon c =
     (case map_of (zip ''abcdefghijklmnopqrstuvwxyz'' ''ABCDEFGHIJKLMNOPQRSTUVWXYZ'') c of
        Some u \<Rightarrow> u
      | None \<Rightarrow> c)"

definition toUpperCase :: "string \<Rightarrow> string" where
  "toUpperCase s = map canon s"

text \<open>The white space class \<open>\s\<close>, restricted to code units below 256.\<close>

definition isSpace :: "char \<Rightarrow> bool" where
  "isSpace c = (c \<in> set [CHR 0x09, CHR 0x0A, CHR 0x0B, CHR 0x0C, CHR 0x0D, CHR 0x20, CHR 0xA0])"

section \<open>Regular expressions\<close>

text \<open>
  The patterns of the program use literals, character classes, groups, alternation and
  greedy or lazy repetition. They are matched the way the host language does it: by
  backtracking, the first alternative and the longest (or, when lazy, the shortest)
  repetition tried first. The matcher is written with a continuation \<open>k\<close> for the rest of
  the pattern; a repetition gives up an iteration that consumed nothing, and forgets the
  groups inside it when an iteration starts.
  No pattern of the program has an anchor, a word boundary, a look-around or a back
  reference, so matching at an index of a text is matching at the start of the suffix
  that begins there.
\<close>

datatype cls = Lit char | OneOf string | NoneOf string | Space | AnyChar

datatype re =
    Chr cls
  | Eps
  | Seq re re
  | Alt re re
  | Star bool re
  | Grp nat re

type_synonym caps = "nat \<Rightarrow> string option"

fun clsMatch :: "bool \<Rightarrow> cls \<Rightarrow> char \<Rightarrow> bool" where
  "clsMatch ci (Lit c) x = (if ci then canon x = canon c else x = c)"
| "clsMatch ci (OneOf cs) x = (if ci then canon x \<in> set (map canon cs) else x \<in> set cs)"
| "clsMatch ci (NoneOf cs) x = (if ci then canon x \<notin> set (map canon cs) else x \<notin> set cs)"
| "clsMatch ci Space x = isSpace x"
| "clsMatch ci AnyChar x = True"

fun groupsOf :: "re \<Rightarrow> nat list" where
  "groupsOf (Chr c) = []"
| "groupsOf Eps = []"
| "groupsOf (Seq a b) = groupsOf a @ groupsOf b"
| "groupsOf (Alt a b) = groupsOf a @ groupsOf b"
| "groupsOf (Star g r) = groupsOf r"
| "groupsOf (Grp n r) = n # groupsOf r"

definition clearCaps :: "nat list \<Rightarrow> caps \<Rightarrow> caps" where
  "clearCaps ns c = (\<lambda>n. if n \<in> set ns then None else c n)"

text \<open>\<open>Star True r\<close> is the greedy \<open>r*\<close>, \<open>Star False r\<close> the lazy \<open>r*?\<close>.\<close>

function (sequential) rmatch ::
  "bool \<Rightarrow> re \<Rightarrow> string \<Rightarrow> caps \<Rightarrow> (string \<Rightarrow> caps \<Rightarrow> 'a option) \<Rightarrow> 'a option" where
  "rmatch ci (Chr c) [] cs k = None"
| "rmatch ci (Chr c) (x # xs) cs k = (if clsMatch ci c x then k xs cs else None)"
| "rmatch ci Eps s cs k = k s cs"
| "rmatch ci (Seq a b) s cs k = rmatch ci a s cs (\<lambda>s' cs'. rmatch ci b s' cs' k)"
| "rmatch ci (Alt a b) s cs k =
     (case rmatch ci a s cs k of Some r \<Rightarrow> Some r | None \<Rightarrow> rmatch ci b s cs k)"
| "rmatch ci (Star True r) s cs k =
     (case rmatch ci r s (clearCaps (groupsOf r) cs)
             (\<lambda>s' cs'. if length s' < length s then rmatch ci (Star True r) s' cs' k else None) of
        Some x \<Rightarrow> Some x
      | None \<Rightarrow> k s cs)"
| "rmatch ci (Star False r) s cs k =
     (case k s cs of
        Some x \<Rightarrow> Some x
      | None \<Rightarrow>
          rmatch ci r s (clearCaps (groupsOf r) cs)
            (\<lambda>s' cs'. if length s' < length s then rmatch ci (Star False r) s' cs' k else None))"
| "rmatch ci (Grp n r) s cs k =
     rmatch ci r s cs (\<lambda>s' cs'. k s' (cs'(n \<mapsto> take (length s - length s') s)))"
  by pat_completeness auto
termination
  by (relation "measures [\<lambda>(ci, r, s, cs, k). size r, \<lambda>(ci, r, s, cs, k). length s]") auto

definition lit :: "string \<Rightarrow> re" where
  "lit s = foldr (\<lambda>c r. Seq (Chr (Lit c)) r) s Eps"

definition seqs :: "re list \<Rightarrow> re" where
  "seqs rs = foldr Seq rs Eps"

definition plus :: "re \<Rightarrow> re" where
  "plus r = Seq r (Star True r)"

record regex =
  pattern :: re
  ignoreCase :: bool

text \<open>A match: the text before it, the matched text, the groups, the text after it.\<close>

record found =
  precedes :: string
  matched :: string
  groups :: caps
  follows :: string

definition matchHere :: "regex \<Rightarrow> string \<Rightarrow> (string \<times> caps) option" where
  "matchHere rx s = rmatch (ignoreCase rx) (pattern rx) s (\<lambda>n. None) (\<lambda>s' cs'. Some (s', cs'))"

text \<open>
  \<open>exec\<close> of a global pattern on the text from \<open>lastIndex\<close> on: the leftmost start at
  which the pattern matches.
\<close>

fun exec :: "regex \<Rightarrow> string \<Rightarrow> found option" where
  "exec rx [] =
     (case matchHere rx [] of
        Some (s', cs) \<Rightarrow> Some \<lparr>precedes = [], matched = [], groups = cs, follows = []\<rparr>
      | None \<Rightarrow> None)"
| "exec rx (x # xs) =
     (case matchHere rx (x # xs) of
        Some (s', cs) \<Rightarrow>
          Some \<lparr>precedes = [], matched = take (length (x # xs) - length s') (x # xs),
                groups = cs, follows = s'\<rparr>
      | None \<Rightarrow>
          (case exec rx xs of
             Some mt \<Rightarrow> Some (mt\<lparr>precedes := x # precedes mt\<rparr>)
           | None \<Rightarrow> None))"

text \<open>A group that took no part in the match reads as \<open>undefined\<close>.\<close>

definition group :: "nat \<Rightarrow> found \<Rightarrow> string" where
  "group n mt = (case groups mt n of Some g \<Rightarrow> g | None \<Rightarrow> ''undefined'')"

text \<open>A replacement template: literal text and group references \<open>$n\<close>.\<close>

datatype ritem = RText string | RGroup nat

definition expand :: "ritem list \<Rightarrow> found \<Rightarrow> string" where
  "expand tpl mt =
     concat (map (\<lambda>i. case i of RText s \<Rightarrow> s
                          | RGroup n \<Rightarrow> (case groups mt n of None \<Rightarrow> [] | Some g \<Rightarrow> g)) tpl)"

subsection \<open>What a match consumes\<close>

lemma rmatch_suffix:
  "rmatch ci r s cs k = Some x \<Longrightarrow> \<exists>s' cs'. suffix s' s \<and> k s' cs' = Some x"
proof (induction ci r s cs k arbitrary: x rule: rmatch.induct)
  case (2 ci c x xs cs k)
  then show ?case by (auto split: if_splits intro: suffix_ConsI)
next
  case (4 ci a b s cs k)
  from "4.prems" have p: "rmatch ci a s cs (\<lambda>s' cs'. rmatch ci b s' cs' k) = Some x" by simp
  from "4.IH"(2)[OF p] obtain s1 cs1 where s1: "suffix s1 s" "rmatch ci b s1 cs1 k = Some x"
    by blast
  from "4.IH"(1)[OF s1(2)] obtain s2 cs2 where "suffix s2 s1" "k s2 cs2 = Some x" by blast
  with s1(1) show ?case by (blast intro: suffix_order.trans)
next
  case (5 ci a b s cs k)
  then show ?case by (auto split: option.splits)
next
  case (6 ci r s cs k)
  let ?k = "\<lambda>s' cs'. if length s' < length s then rmatch ci (Star True r) s' cs' k else None"
  show ?case
  proof (cases "rmatch ci r s (clearCaps (groupsOf r) cs) ?k")
    case None
    with "6.prems" show ?thesis by auto
  next
    case (Some y)
    with "6.prems" have xy: "y = x" by simp
    from "6.IH"(2)[OF Some[unfolded xy]] obtain s1 cs1 where
      s1: "suffix s1 s" "?k s1 cs1 = Some x"
      by blast
    then have l: "length s1 < length s" and mm: "rmatch ci (Star True r) s1 cs1 k = Some x"
      by (auto split: if_splits)
    from "6.IH"(1)[OF l mm] obtain s2 cs2 where "suffix s2 s1" "k s2 cs2 = Some x" by blast
    with s1(1) show ?thesis by (blast intro: suffix_order.trans)
  qed
next
  case (7 ci r s cs k)
  let ?k = "\<lambda>s' cs'. if length s' < length s then rmatch ci (Star False r) s' cs' k else None"
  show ?case
  proof (cases "k s cs")
    case (Some y)
    with "7.prems" show ?thesis by auto
  next
    case None
    with "7.prems" have mm0: "rmatch ci r s (clearCaps (groupsOf r) cs) ?k = Some x"
      by simp
    from "7.IH"(2)[OF None mm0] obtain s1 cs1 where
      s1: "suffix s1 s" "?k s1 cs1 = Some x"
      by blast
    then have l: "length s1 < length s" and mm: "rmatch ci (Star False r) s1 cs1 k = Some x"
      by (auto split: if_splits)
    from "7.IH"(1)[OF None l mm] obtain s2 cs2 where "suffix s2 s1" "k s2 cs2 = Some x" by blast
    with s1(1) show ?thesis by (blast intro: suffix_order.trans)
  qed
next
  case (8 ci n r s cs k)
  from "8.prems"
  have p: "rmatch ci r s cs (\<lambda>s' cs'. k s' (cs'(n \<mapsto> take (length s - length s') s))) = Some x"
    by simp
  from "8.IH"[OF p] show ?case by blast
qed auto

lemma matchHere_suffix: "matchHere rx s = Some (s', cs) \<Longrightarrow> suffix s' s"
  unfolding matchHere_def by (drule rmatch_suffix) auto

lemma exec_decomp:
  "exec rx s = Some mt \<Longrightarrow> s = precedes mt @ matched mt @ follows mt"
proof (induction s arbitrary: mt)
  case Nil
  then show ?case by (auto split: option.splits)
next
  case (Cons x xs)
  show ?case
  proof (cases "matchHere rx (x # xs)")
    case None
    with Cons.prems obtain mt' where e: "exec rx xs = Some mt'"
      and mt: "mt = mt'\<lparr>precedes := x # precedes mt'\<rparr>"
      by (auto split: option.splits)
    from Cons.IH[OF e] mt show ?thesis by simp
  next
    case (Some p)
    obtain s' cs where p: "p = (s', cs)" by (cases p)
    from Some p have "suffix s' (x # xs)" by (auto dest: matchHere_suffix)
    then obtain zs where zs: "x # xs = zs @ s'" by (auto simp: suffix_def)
    from Some p Cons.prems
    have mt: "mt = \<lparr>precedes = [], matched = take (length (x # xs) - length s') (x # xs),
                     groups = cs, follows = s'\<rparr>"
      by simp
    have "take (length (x # xs) - length s') (x # xs) = zs" unfolding zs by simp
    with mt zs show ?thesis by simp
  qed
qed

lemma exec_length:
  "exec rx s = Some mt \<Longrightarrow>
   length s = length (precedes mt) + length (matched mt) + length (follows mt)"
  by (auto dest!: exec_decomp arg_cong[where f = length])

subsection \<open>Replacing every match\<close>

text \<open>
  \<^verbatim>\<open>s.replace(rx, template)\<close> for a global pattern: every match, left to right, none
  overlapping; after an empty match the search moves on by one character.
\<close>

function replaceAll :: "regex \<Rightarrow> ritem list \<Rightarrow> string \<Rightarrow> string" where
  "replaceAll rx tpl s =
     (case exec rx s of
        None \<Rightarrow> s
      | Some mt \<Rightarrow>
          precedes mt @ expand tpl mt @
          (if matched mt = []
           then (case follows mt of [] \<Rightarrow> [] | x # xs \<Rightarrow> x # replaceAll rx tpl xs)
           else replaceAll rx tpl (follows mt)))"
  by pat_completeness auto
termination
proof (relation "measure (\<lambda>(rx, tpl, s). length s)")
  show "wf (measure (\<lambda>(rx, tpl, s). length s))" by simp
next
  fix rx :: regex and tpl :: "ritem list" and s mt x xs
  assume "exec rx s = Some mt" "follows mt = x # xs"
  then have "length xs < length s" by (auto dest!: exec_length)
  then show "((rx, tpl, xs), (rx, tpl, s)) \<in> measure (\<lambda>(rx, tpl, s). length s)" by simp
next
  fix rx :: regex and tpl :: "ritem list" and s mt
  assume e: "exec rx s = Some mt" and ne: "matched mt \<noteq> []"
  then have "length (follows mt) < length s" by (cases "matched mt") (auto dest!: exec_length)
  then show "((rx, tpl, follows mt), (rx, tpl, s)) \<in> measure (\<lambda>(rx, tpl, s). length s)"
    by simp
qed

declare replaceAll.simps [simp del]

section \<open>The in-memory registry (class MemStorage)\<close>

type_synonym ident = nat
type_synonym timestamp = nat

record storedFile =
  fileId :: ident
  filename :: string
  originalName :: string
  mimeType :: string
  fileSize :: string
  filePath :: string
  uploadedAt :: timestamp
  validationStatus :: string
  validationError :: "string option"
  validatedAt :: "timestamp option"


record transformation =
  transformationId :: ident
  xmlFileId :: ident
  xslFileId :: ident
  xsdFileId :: "ident option"
  status :: string
  progress :: "string option"
  statusMessage :: "string option"
  resultPath :: "string option"
  errorMessage :: "string option"
  processingTime :: "string option"
  outputSize :: "string option"
  createdAt :: timestamp
  completedAt :: "timestamp option"

record dependency =
  dependencyId :: ident
  depXslFileId :: ident
  dependencyPath :: string
  resolvedFileId :: "ident option"
  depStatus :: string

text \<open>
  A JavaScript \<open>Map\<close> keeps its entries in insertion order; \<open>set\<close> on a key that is
  present replaces the value in place, on a new key it appends.
\<close>

fun mapSet :: "'k \<Rightarrow> 'v \<Rightarrow> ('k \<times> 'v) list \<Rightarrow> ('k \<times> 'v) list" where
  "mapSet k v [] = [(k, v)]"
| "mapSet k v ((k', v') # kvs) = (if k = k' then (k, v) # kvs else (k', v') # mapSet k v kvs)"

record storage =
  files :: "(ident \<times> storedFile) list"
  transformations :: "(ident \<times> transformation) list"
  dependencies :: "(ident \<times> dependency) list"


text \<open>
  \<open>randomUUID()\<close> is modelled as a supply of identifiers that are not yet a key of the
  registry: the next number above every key in use.
\<close>

definition usedIds :: "storage \<Rightarrow> ident list" where
  "usedIds st = map fst (files st) @ map fst (transformations st) @ map fst (dependencies st)"

definition randomUUID :: "storage \<Rightarrow> ident" where
  "randomUUID st = Suc (fold max (usedIds st) 0)"


definition getFile :: "ident \<Rightarrow> storage \<Rightarrow> storedFile option" where
  "getFile i st = map_of (files st) i"

definition getAllFiles :: "storage \<Rightarrow> storedFile list" where
  "getAllFiles st = map snd (files st)"

definition updateFileValidation ::
  "ident \<Rightarrow> string \<Rightarrow> string option \<Rightarrow> timestamp \<Rightarrow> storage \<Rightarrow> storedFile option \<times> storage" where
  "updateFileValidation i stat err now st =
     (case map_of (files st) i of
        None \<Rightarrow> (None, st)
      | Some f \<Rightarrow>
          (let updated = f\<lparr>validationStatus := stat, validationError := orNull err,
                           validatedAt := Some now\<rparr>
           in (Some updated, st\<lparr>files := mapSet i updated (files st)\<rparr>)))"

section \<open>The upload route (POST /api/upload)\<close>








section \<open>Dependency resolution\<close>

text \<open>The file system as the program reads it: \<^verbatim>\<open>fs.readFile(path, 'utf-8')\<close>.\<close>

type_synonym fileSystem = "string \<Rightarrow> exn + string"

record insertDependency =
  id_xslFileId :: ident
  id_dependencyPath :: string
  id_resolvedFileId :: "ident option"
  id_status :: string

definition createDependency :: "insertDependency \<Rightarrow> storage \<Rightarrow> dependency \<times> storage" where
  "createDependency ins st =
     (let i = randomUUID st;
          d = \<lparr>dependencyId = i, depXslFileId = id_xslFileId ins,
               dependencyPath = id_dependencyPath ins, resolvedFileId = id_resolvedFileId ins,
               depStatus = id_status ins\<rparr>
      in (d, st\<lparr>dependencies := mapSet i d (dependencies st)\<rparr>))"

text \<open>A partial update: \<open>None\<close> is a key the update object does not have.\<close>

record dependencyUpdates =
  upd_resolvedFileId :: "ident option"
  upd_depStatus :: "string option"

definition updateDependency ::
  "ident \<Rightarrow> dependencyUpdates \<Rightarrow> storage \<Rightarrow> dependency option \<times> storage" where
  "updateDependency i u st =
     (case map_of (dependencies st) i of
        None \<Rightarrow> (None, st)
      | Some d \<Rightarrow>
          (let updated =
                 d\<lparr>resolvedFileId := (case upd_resolvedFileId u of None \<Rightarrow> resolvedFileId d
                                        | Some f \<Rightarrow> Some f),
                   depStatus := (case upd_depStatus u of None \<Rightarrow> depStatus d | Some v \<Rightarrow> v)\<rparr>
           in (Some updated, st\<lparr>dependencies := mapSet i updated (dependencies st)\<rparr>)))"

definition getDependenciesByXslFile :: "ident \<Rightarrow> storage \<Rightarrow> dependency list" where
  "getDependenciesByXslFile x st = filter (\<lambda>d. depXslFileId d = x) (map snd (dependencies st))"

text \<open>\<^verbatim>\<open>/<xsl:(include|import)\s+href=["']([^"']+)["']/g\<close>\<close>

definition includeRegex :: regex where
  "includeRegex =
     \<lparr>pattern = seqs [lit ''<xsl:'', Grp 1 (Alt (lit ''include'') (lit ''import'')),
                       plus (Chr Space), lit ''href='', Chr (OneOf [dq, sq]),
                       Grp 2 (plus (Chr (NoneOf [dq, sq]))), Chr (OneOf [dq, sq])],
      ignoreCase = False\<rparr>"

text \<open>\<^verbatim>\<open>/<xsl:(include|import)\s+href=["']([^"']+)["'][^>]*>/g\<close>\<close>

definition includeElementRegex :: regex where
  "includeElementRegex =
     \<lparr>pattern = seqs [lit ''<xsl:'', Grp 1 (Alt (lit ''include'') (lit ''import'')),
                       plus (Chr Space), lit ''href='', Chr (OneOf [dq, sq]),
                       Grp 2 (plus (Chr (NoneOf [dq, sq]))), Chr (OneOf [dq, sq]),
                       Star True (Chr (NoneOf ''>'')), lit ''>''],
      ignoreCase = False\<rparr>"

lemma rmatch_first_char:
  "rmatch ci (Seq (Seq (Chr c) a) b) s cs k = Some x \<Longrightarrow>
   \<exists>s' cs'. length s' < length s \<and> k s' cs' = Some x"
proof (cases s)
  case Nil
  assume "rmatch ci (Seq (Seq (Chr c) a) b) s cs k = Some x"
  with Nil show ?thesis by simp
next
  case (Cons y ys)
  assume "rmatch ci (Seq (Seq (Chr c) a) b) s cs k = Some x"
  with Cons have "rmatch ci a ys cs (\<lambda>s' cs'. rmatch ci b s' cs' k) = Some x"
    by (simp split: if_splits)
  then obtain s1 cs1 where s1: "suffix s1 ys" "rmatch ci b s1 cs1 k = Some x"
    by (blast dest: rmatch_suffix)
  then obtain s2 cs2 where s2: "suffix s2 s1" "k s2 cs2 = Some x"
    by (blast dest: rmatch_suffix)
  from s1(1) s2(1) have "length s2 \<le> length ys"
    by (meson suffix_length_le le_trans)
  with Cons have "length s2 < length s" by simp
  with s2(2) show ?thesis by blast
qed

lemma exec_consumes:
  assumes step: "\<And>t t' cs. matchHere rx t = Some (t', cs) \<Longrightarrow> length t' < length t"
    and e: "exec rx s = Some mt"
  shows "length (follows mt) < length s"
  using e
proof (induction s arbitrary: mt)
  case Nil
  then show ?case by (auto split: option.splits dest: step)
next
  case (Cons x xs)
  show ?case
  proof (cases "matchHere rx (x # xs)")
    case None
    with Cons.prems obtain mt' where e': "exec rx xs = Some mt'"
      and mt: "mt = mt'\<lparr>precedes := x # precedes mt'\<rparr>"
      by (auto split: option.splits)
    from Cons.IH[OF e'] mt show ?thesis by simp
  next
    case (Some p)
    obtain s' cs where p: "p = (s', cs)" by (cases p)
    with Some have "length s' < length (x # xs)" by (auto dest: step)
    with Some p Cons.prems show ?thesis by auto
  qed
qed

lemma includeRegex_consumes:
  "exec includeRegex s = Some mt \<Longrightarrow> length (follows mt) < length s"
proof (erule exec_consumes[rotated])
  fix t t' cs
  assume "matchHere includeRegex t = Some (t', cs)"
  then show "length t' < length t"
    unfolding matchHere_def includeRegex_def seqs_def lit_def
    by (auto simp del: rmatch.simps dest!: rmatch_first_char)
qed

lemma includeElementRegex_consumes:
  "exec includeElementRegex s = Some mt \<Longrightarrow> length (follows mt) < length s"
proof (erule exec_consumes[rotated])
  fix t t' cs
  assume "matchHere includeElementRegex t = Some (t', cs)"
  then show "length t' < length t"
    unfolding matchHere_def includeElementRegex_def seqs_def lit_def
    by (auto simp del: rmatch.simps dest!: rmatch_first_char)
qed

text \<open>
  The loop \<^verbatim>\<open>while ((match = includeRegex.exec(xslContent)) !== null)\<close> of
  \<open>resolveDependencies\<close>; \<open>text\<close> is what is left of the stylesheet after \<open>lastIndex\<close>.
\<close>

function resolveLoop ::
  "ident \<Rightarrow> string \<Rightarrow> string list \<Rightarrow> storage \<Rightarrow> string list \<times> storage" where
  "resolveLoop xslId text errors st =
     (case exec includeRegex text of
        None \<Rightarrow> (errors, st)
      | Some mt \<Rightarrow>
          (let depPath = group 2 mt;
               (dep, st1) = createDependency
                              \<lparr>id_xslFileId = xslId, id_dependencyPath = depPath,
                               id_resolvedFileId = None, id_status = ''pending''\<rparr> st;
               resolvedFile = find (\<lambda>f. originalName f = depPath \<or>
                                         filename f = depPath) (getAllFiles st1)
           in case resolvedFile of
                Some f \<Rightarrow>
                  resolveLoop xslId (follows mt) errors
                    (snd (updateDependency (dependencyId dep)
                            \<lparr>upd_resolvedFileId = Some (fileId f),
                             upd_depStatus = Some ''resolved''\<rparr> st1))
              | None \<Rightarrow>
                  resolveLoop xslId (follows mt)
                    (errors @ [''Missing dependency: '' @ depPath])
                    (snd (updateDependency (dependencyId dep)
                            \<lparr>upd_resolvedFileId = None, upd_depStatus = Some ''missing''\<rparr>
                            st1))))"
  by pat_completeness auto
termination
  by (relation "measure (\<lambda>(xslId, text, errors, st). length text)")
     (auto dest: includeRegex_consumes)

declare resolveLoop.simps [simp del]

definition resolveDependencies ::
  "fileSystem \<Rightarrow> ident \<Rightarrow> string \<Rightarrow> storage \<Rightarrow> string list \<times> storage" where
  "resolveDependencies rd xslId xslPath st =
     (case rd xslPath of
        Inl e \<Rightarrow> ([''Error reading XSL file: '' @ messageOr ''Unknown error'' e], st)
      | Inr xslContent \<Rightarrow> resolveLoop xslId xslContent [] st)"

text \<open>
  The directives of a stylesheet text, as the resolver finds them: the successive matches
  of the pattern, each with its operation and its referenced path.
\<close>

function directives :: "string \<Rightarrow> (string \<times> string) list" where
  "directives text =
     (case exec includeRegex text of
        None \<Rightarrow> []
      | Some mt \<Rightarrow> (group 1 mt, group 2 mt) # directives (follows mt))"
  by pat_completeness auto
termination
  by (relation "measure length") (auto dest: includeRegex_consumes)

declare directives.simps [simp del]

subsection \<open>The substitution of directives before the fallback engine\<close>

text \<open>\<open>path.basename\<close> (POSIX): trailing slashes dropped, then what follows the last slash.\<close>

definition basename :: "string \<Rightarrow> string" where
  "basename p =
     (let q = dropWhile (\<lambda>c. c = CHR ''/'') (rev p)
      in rev (takeWhile (\<lambda>c. c \<noteq> CHR ''/'') q))"

text \<open>
  \<^verbatim>\<open>s.replace(searchString, replacement)\<close> with a string to search: the first occurrence
  is replaced; in the replacement \<open>$$\<close> is a dollar sign, \<open>$&\<close> the matched text, \<open>$`\<close> the
  text before it and \<open>$'\<close> the text after it; there are no groups, so every other \<open>$\<close> stays.
\<close>

fun getSubstitution :: "string \<Rightarrow> string \<Rightarrow> string \<Rightarrow> string \<Rightarrow> string" where
  "getSubstitution mtext pre post [] = []"
| "getSubstitution mtext pre post [c] = [c]"
| "getSubstitution mtext pre post (c # d # ds) =
     (if c = CHR ''$'' \<and> d = CHR ''$'' then CHR ''$'' # getSubstitution mtext pre post ds
      else if c = CHR ''$'' \<and> d = CHR ''&'' then mtext @ getSubstitution mtext pre post ds
      else if c = CHR ''$'' \<and> d = CHR 0x60 then pre @ getSubstitution mtext pre post ds
      else if c = CHR ''$'' \<and> d = sq then post @ getSubstitution mtext pre post ds
      else c # getSubstitution mtext pre post (d # ds))"

fun splitAtFirst :: "string \<Rightarrow> string \<Rightarrow> (string \<times> string) option" where
  "splitAtFirst p [] = (if p = [] then Some ([], []) else None)"
| "splitAtFirst p (x # xs) =
     (if startsWith (x # xs) p then Some ([], drop (length p) (x # xs))
      else (case splitAtFirst p xs of
              Some (pre, post) \<Rightarrow> Some (x # pre, post)
            | None \<Rightarrow> None))"

definition replaceFirst :: "string \<Rightarrow> string \<Rightarrow> string \<Rightarrow> string" where
  "replaceFirst s p replacement =
     (case splitAtFirst p s of
        None \<Rightarrow> s
      | Some (pre, post) \<Rightarrow> pre @ getSubstitution p pre post replacement @ post)"

text \<open>The candidate that \<open>resolveXslIncludes\<close> takes for a referenced path.\<close>

definition findDependencyFile :: "string \<Rightarrow> storedFile list \<Rightarrow> storedFile option" where
  "findDependencyFile depPath fs =
     find (\<lambda>f. originalName f = depPath \<or>
               originalName f = basename depPath \<or>
               filename f = depPath \<or>
               (includesText depPath ''W2'' \<and> includesText depPath ''Style.xsl'' \<and>
                includesText (originalName f) ''W2'' \<and>
                includesText (originalName f) ''Style.xsl'') \<or>
               (endsWith depPath ''Style.xsl'' \<and> endsWith (originalName f) ''Style.xsl'' \<and>
                startsWith depPath ''W2'' \<and> startsWith (originalName f) ''W2'')) fs"

function resolveIncludesLoop :: "fileSystem \<Rightarrow> storage \<Rightarrow> string \<Rightarrow> string \<Rightarrow> string" where
  "resolveIncludesLoop rd st text resolvedContent =
     (case exec includeElementRegex text of
        None \<Rightarrow> resolvedContent
      | Some mt \<Rightarrow>
          (let fullMatch = matched mt; operation = group 1 mt; depPath = group 2 mt
           in resolveIncludesLoop rd st (follows mt)
                (case findDependencyFile depPath (getAllFiles st) of
                   Some dependencyFile \<Rightarrow>
                     (case rd (filePath dependencyFile) of
                        Inr dependencyContent \<Rightarrow>
                          replaceFirst resolvedContent fullMatch
                            (''<!-- '' @ toUpperCase operation @ '': '' @ depPath
                             @ '' - Manual dependency resolution required -->'')
                      | Inl e \<Rightarrow>
                          replaceFirst resolvedContent fullMatch
                            (''<!-- Error resolving '' @ operation @ '': '' @ depPath @ '' - ''
                             @ messageOr ''Unknown error'' e @ '' -->''))
                 | None \<Rightarrow>
                     replaceFirst resolvedContent fullMatch
                       (''<!-- Missing '' @ operation @ '': '' @ depPath @ '' -->''))))"
  by pat_completeness auto
termination
  by (relation "measure (\<lambda>(rd, st, text, resolvedContent). length text)")
     (auto dest: includeElementRegex_consumes)

declare resolveIncludesLoop.simps [simp del]

definition resolveXslIncludes :: "fileSystem \<Rightarrow> storage \<Rightarrow> string \<Rightarrow> string" where
  "resolveXslIncludes rd st xslContent = resolveIncludesLoop rd st xslContent xslContent"

section \<open>The content normalizer (preprocessXslContent)\<close>

text \<open>A pattern with the flags \<open>gi\<close> (and \<open>s\<close>, which the class \<open>AnyChar\<close> carries).\<close>

definition rxi :: "re list \<Rightarrow> regex" where
  "rxi rs = \<lparr>pattern = seqs rs, ignoreCase = True\<rparr>"

abbreviation (input) quoteChar :: re where "quoteChar \<equiv> Chr (OneOf [dq, sq])"
abbreviation (input) notQuote :: re where "notQuote \<equiv> Chr (NoneOf [dq, sq])"

definition unsupportedElements :: "string list" where
  "unsupportedElements =
     [''xsl:strip-space'', ''xsl:preserve-space'', ''xsl:decimal-format'', ''xsl:key'',
      ''xsl:namespace-alias'']"

text \<open>\<^verbatim>\<open>new RegExp(`<${element}[^>]*/>`, 'gi')\<close>\<close>

definition selfClosingRegex :: "string \<Rightarrow> regex" where
  "selfClosingRegex element =
     rxi [lit (''<'' @ element), Star True (Chr (NoneOf ''>'')), lit ''/>'']"

text \<open>\<^verbatim>\<open>new RegExp(`<${element}[^>]*>.*?</${element}>`, 'gis')\<close>\<close>

definition regularElementRegex :: "string \<Rightarrow> regex" where
  "regularElementRegex element =
     rxi [lit (''<'' @ element), Star True (Chr (NoneOf ''>'')), lit ''>'',
          Star False (Chr AnyChar), lit (''</'' @ element @ ''>'')]"

definition removeUnsupported :: "string \<Rightarrow> string \<Rightarrow> string" where
  "removeUnsupported element content =
     (let marker = [RText (''<!-- Removed unsupported '' @ element @ '' -->'')]
      in replaceAll (regularElementRegex element) marker
           (replaceAll (selfClosingRegex element) marker content))"

text \<open>\<^verbatim>\<open>/<xsl:output([^>]*?)method=["']html["']/gi\<close>\<close>

definition outputHtmlRegex :: regex where
  "outputHtmlRegex =
     rxi [lit ''<xsl:output'', Grp 1 (Star False (Chr (NoneOf ''>''))), lit ''method='',
          quoteChar, lit ''html'', quoteChar]"

text \<open>\<^verbatim>\<open>/\s+disable-output-escaping=["'][^"']*["']/gi\<close>\<close>

definition disableEscapingRegex :: regex where
  "disableEscapingRegex =
     rxi [plus (Chr Space), lit ''disable-output-escaping='', quoteChar, Star True notQuote,
          quoteChar]"

text \<open>\<^verbatim>\<open>/key\s*\([^)]+\)/gi\<close>\<close>

definition keyCallRegex :: regex where
  "keyCallRegex =
     rxi [lit ''key'', Star True (Chr Space), lit ''('', plus (Chr (NoneOf '')'')), lit '')'']"

text \<open>\<^verbatim>\<open>/\[[^\]]*key\([^\]]*\]/gi\<close> and the same with \<open>generate-id\<close>.\<close>

definition predicateRegex :: "string \<Rightarrow> regex" where
  "predicateRegex fn =
     rxi [lit ''['', Star True (Chr (NoneOf '']'')), lit (fn @ ''(''),
          Star True (Chr (NoneOf '']'')), lit '']'']"

text \<open>\<^verbatim>\<open>/(<xsl:variable[^>]*select=["'])[^"']*(\|[^"']*)*["']/gi\<close>\<close>

definition variableSelectRegex :: regex where
  "variableSelectRegex =
     rxi [Grp 1 (seqs [lit ''<xsl:variable'', Star True (Chr (NoneOf ''>'')), lit ''select='',
                       quoteChar]),
          Star True notQuote,
          Star True (Grp 2 (seqs [lit ''|'', Star True notQuote])),
          quoteChar]"

text \<open>\<^verbatim>\<open>/(<xsl:for-each[^>]*select=["'])[^"']*\|[^"']*["']/gi\<close>\<close>

definition forEachSelectRegex :: regex where
  "forEachSelectRegex =
     rxi [Grp 1 (seqs [lit ''<xsl:for-each'', Star True (Chr (NoneOf ''>'')), lit ''select='',
                       quoteChar]),
          Star True notQuote, lit ''|'', Star True notQuote, quoteChar]"

text \<open>\<^verbatim>\<open>/generate-id\s*\([^)]*\)/gi\<close> and \<^verbatim>\<open>/document\s*\([^)]*\)/gi\<close>\<close>

definition callRegex :: "string \<Rightarrow> regex" where
  "callRegex fn =
     rxi [lit fn, Star True (Chr Space), lit ''('', Star True (Chr (NoneOf '')'')), lit '')'']"

text \<open>\<^verbatim>\<open>/current\s*\(\s*\)/gi\<close>\<close>

definition currentCallRegex :: regex where
  "currentCallRegex =
     rxi [lit ''current'', Star True (Chr Space), lit ''('', Star True (Chr Space), lit '')'']"

text \<open>
  \<^verbatim>\<open>/(<xsl:template[^>]*match=["'])[^"']*key\([^"']*["']/gi\<close>, and the same for the
  \<open>test\<close> of \<open>xsl:if\<close> and of \<open>xsl:when\<close>.
\<close>

definition keyAttributeRegex :: "string \<Rightarrow> string \<Rightarrow> regex" where
  "keyAttributeRegex element attr =
     rxi [Grp 1 (seqs [lit (''<'' @ element), Star True (Chr (NoneOf ''>'')), lit (attr @ ''=''),
                       quoteChar]),
          Star True notQuote, lit ''key('', Star True notQuote, quoteChar]"

definition preprocessXslContent :: "string \<Rightarrow> string" where
  "preprocessXslContent xslContent =
     (let c = fold removeUnsupported unsupportedElements xslContent;
          c = replaceAll outputHtmlRegex
                [RText ''<xsl:output'', RGroup 1, RText (''method='' @ [dq] @ ''xml'' @ [dq])] c;
          c = replaceAll disableEscapingRegex [] c;
          c = replaceAll keyCallRegex [RText [dq, dq]] c;
          c = replaceAll (predicateRegex ''key'') [RText ''[position()=1]''] c;
          c = replaceAll (predicateRegex ''generate-id'') [RText ''[position()=1]''] c;
          c = replaceAll variableSelectRegex [RGroup 1, RText ''*'', RGroup 2, RText [dq]] c;
          c = replaceAll forEachSelectRegex [RGroup 1, RText (''*'' @ [dq])] c;
          c = replaceAll (callRegex ''generate-id'') [RText ''position()''] c;
          c = replaceAll currentCallRegex [RText ''.''] c;
          c = replaceAll (callRegex ''document'') [RText ''.''] c;
          c = replaceAll (keyAttributeRegex ''xsl:template'' ''match'')
                [RGroup 1, RText (''*'' @ [dq])] c;
          c = replaceAll (keyAttributeRegex ''xsl:if'' ''test'')
                [RGroup 1, RText (''true()'' @ [dq])] c;
          c = replaceAll (keyAttributeRegex ''xsl:when'' ''test'')
                [RGroup 1, RText (''true()'' @ [dq])] c
      in c)"

section \<open>The transformation executor\<close>

text \<open>
  What the pipeline takes from its collaborators. The two engines, the schema check and
  the file system are opaque: the model fixes only what they return or throw.
  \<^item> \<open>clock\<close>: the time read at the \<open>k\<close>-th observation of the registry;
  \<^item> \<open>readFile\<close>, \<open>writeFile\<close>: the file system (\<open>writeFile\<close> tells what it throws);
  \<^item> \<open>xsdCheck\<close>: the result of \<open>validateXmlAgainstXsd\<close> on the two paths;
  \<^item> \<open>saxonGetResource\<close>: what loading a document into the primary engine throws;
  \<^item> \<open>saxonRun\<close>: compiling and running the primary engine on the two paths, giving the
    principal result (empty when there is none);
  \<^item> \<open>xsltProcess\<close>: parsing and running the fallback engine on the two texts;
  \<^item> \<open>outputPathFor\<close>: the freshly named output path of a job;
  \<^item> \<open>formatKB\<close>, \<open>formatSeconds\<close>: \<^verbatim>\<open>(bytes / 1024).toFixed(1)\<close> and
    \<^verbatim>\<open>(ms / 1000).toFixed(1)\<close>, floating-point renderings left abstract.
\<close>

record validationResult =
  vr_isValid :: bool
  vr_error :: "string option"

record env =
  clock :: "nat \<Rightarrow> timestamp"
  readFile :: fileSystem
  writeFile :: "string \<Rightarrow> string \<Rightarrow> exn option"
  xsdCheck :: "string \<Rightarrow> string \<Rightarrow> validationResult"
  saxonGetResource :: "string \<Rightarrow> exn option"
  saxonRun :: "string \<Rightarrow> string \<Rightarrow> exn + string"
  xsltProcess :: "string \<Rightarrow> string \<Rightarrow> exn + string"
  outputPathFor :: "ident \<Rightarrow> string"
  formatKB :: "nat \<Rightarrow> string"
  formatSeconds :: "int \<Rightarrow> string"

record saxonValidationResult =
  sv_isValid :: bool
  sv_errors :: "string list"
  sv_warnings :: "string list"

record saxonTransformResult =
  tr_success :: bool
  tr_output :: "string option"
  tr_errors :: "string list"
  tr_warnings :: "string list"
  tr_outputSize :: "nat option"

text \<open>The size in bytes of a text written as UTF-8 (code units below 256).\<close>

definition utf8Length :: "string \<Rightarrow> nat" where
  "utf8Length s = length s + length (filter digit7 s)"

definition validateXmlWellFormedness :: "env \<Rightarrow> string \<Rightarrow> saxonValidationResult" where
  "validateXmlWellFormedness e xmlPath =
     (case saxonGetResource e xmlPath of
        None \<Rightarrow> \<lparr>sv_isValid = True, sv_errors = [], sv_warnings = []\<rparr>
      | Some x \<Rightarrow>
          \<lparr>sv_isValid = False, sv_errors = [messageOr ''XML is not well-formed'' x],
           sv_warnings = []\<rparr>)"

text \<open>
  \<open>SaxonProcessor.transform\<close>: every failure inside it is caught and reported in the
  result. Reading the size of the file just written is taken to succeed.
\<close>

definition transform :: "env \<Rightarrow> string \<Rightarrow> string \<Rightarrow> string \<Rightarrow> saxonTransformResult" where
  "transform e xmlPath xslPath outputPath =
     (let failure = (\<lambda>x. \<lparr>tr_success = False, tr_output = None,
                            tr_errors = [messageOr ''Unknown error'' x], tr_warnings = [],
                            tr_outputSize = None\<rparr>)
      in case saxonRun e xmlPath xslPath of
           Inl x \<Rightarrow> failure x
         | Inr principalResult \<Rightarrow>
             if principalResult = [] then failure (Error ''No transformation result generated'')
             else (case writeFile e outputPath principalResult of
                     Some x \<Rightarrow> failure x
                   | None \<Rightarrow>
                       \<lparr>tr_success = True, tr_output = Some principalResult, tr_errors = [],
                        tr_warnings = [], tr_outputSize = Some (utf8Length principalResult)\<rparr>))"

text \<open>
  The two attempts of \<open>processXsltTransformation\<close>. Each gives the text it wrote to the
  output path, or the value it threw.
\<close>

definition primaryAttempt :: "env \<Rightarrow> string \<Rightarrow> string \<Rightarrow> string \<Rightarrow> exn + string" where
  "primaryAttempt e xmlPath xslPath outputPath =
     (let xmlValidation = validateXmlWellFormedness e xmlPath
      in if \<not> sv_isValid xmlValidation
         then Inl (Error (''XML validation failed: '' @ join ''; '' (sv_errors xmlValidation)))
         else (let result = transform e xmlPath xslPath outputPath
               in if \<not> tr_success result
                  then Inl (Error (''Saxon transformation failed: '' @
                                   (if join ''; '' (tr_errors result) = [] then ''Unknown error''
                                    else join ''; '' (tr_errors result))))
                  else (case tr_output result of
                          Some written \<Rightarrow> Inr written
                        | None \<Rightarrow> Inr [])))"

definition fallbackAttempt ::
  "env \<Rightarrow> storage \<Rightarrow> string \<Rightarrow> string \<Rightarrow> string \<Rightarrow> exn + string" where
  "fallbackAttempt e st xmlPath xslPath outputPath =
     (case readFile e xmlPath of
        Inl x \<Rightarrow> Inl x
      | Inr xmlContent \<Rightarrow>
          (case readFile e xslPath of
             Inl x \<Rightarrow> Inl x
           | Inr xslContent \<Rightarrow>
               (let resolved = resolveXslIncludes (readFile e) st xslContent;
                    prepared = preprocessXslContent resolved
                in case xsltProcess e xmlContent prepared of
                     Inl x \<Rightarrow> Inl x
                   | Inr transformed \<Rightarrow>
                       (case writeFile e outputPath transformed of
                          Some x \<Rightarrow> Inl x
                        | None \<Rightarrow> Inr transformed))))"

definition processXsltTransformation ::
  "env \<Rightarrow> storage \<Rightarrow> string \<Rightarrow> string \<Rightarrow> string \<Rightarrow> exn + string" where
  "processXsltTransformation e st xmlPath xslPath outputPath =
     (case primaryAttempt e xmlPath xslPath outputPath of
        Inr written \<Rightarrow> Inr written
      | Inl error \<Rightarrow>
          (case fallbackAttempt e st xmlPath xslPath outputPath of
             Inr written \<Rightarrow> Inr written
           | Inl fallbackError \<Rightarrow> Inl error))"

section \<open>The job controller\<close>

record insertTransformation =
  it_xmlFileId :: ident
  it_xslFileId :: ident
  it_xsdFileId :: "ident option"
  it_status :: string
  it_progress :: "string option"
  it_statusMessage :: "string option"
  it_resultPath :: "string option"
  it_errorMessage :: "string option"
  it_processingTime :: "string option"
  it_outputSize :: "string option"

definition createTransformation ::
  "insertTransformation \<Rightarrow> timestamp \<Rightarrow> storage \<Rightarrow> transformation \<times> storage" where
  "createTransformation ins now st =
     (let i = randomUUID st;
          t = \<lparr>transformationId = i, xmlFileId = it_xmlFileId ins, xslFileId = it_xslFileId ins,
               xsdFileId = it_xsdFileId ins, status = it_status ins,
               progress = orNull (it_progress ins),
               statusMessage = orNull (it_statusMessage ins),
               resultPath = orNull (it_resultPath ins),
               errorMessage = orNull (it_errorMessage ins),
               processingTime = orNull (it_processingTime ins),
               outputSize = orNull (it_outputSize ins),
               createdAt = now, completedAt = None\<rparr>
      in (t, st\<lparr>transformations := mapSet i t (transformations st)\<rparr>))"

definition getTransformation :: "ident \<Rightarrow> storage \<Rightarrow> transformation option" where
  "getTransformation i st = map_of (transformations st) i"

text \<open>A partial update of a job: \<open>None\<close> is a key the update object does not have.\<close>

record transformationUpdates =
  u_status :: "string option"
  u_progress :: "string option"
  u_statusMessage :: "string option"
  u_resultPath :: "string option"
  u_errorMessage :: "string option"
  u_processingTime :: "string option"
  u_outputSize :: "string option"

definition noUpdates :: transformationUpdates where
  "noUpdates = \<lparr>u_status = None, u_progress = None, u_statusMessage = None,
                u_resultPath = None, u_errorMessage = None, u_processingTime = None,
                u_outputSize = None\<rparr>"

definition orKeep :: "'a option \<Rightarrow> 'a option \<Rightarrow> 'a option" where
  "orKeep new old = (case new of None \<Rightarrow> old | Some v \<Rightarrow> Some v)"

definition updateTransformation ::
  "ident \<Rightarrow> transformationUpdates \<Rightarrow> timestamp \<Rightarrow> storage \<Rightarrow> transformation option \<times> storage" where
  "updateTransformation i u now st =
     (case map_of (transformations st) i of
        None \<Rightarrow> (None, st)
      | Some t \<Rightarrow>
          (let merged =
                 t\<lparr>status := (case u_status u of None \<Rightarrow> status t | Some v \<Rightarrow> v),
                   progress := orKeep (u_progress u) (progress t),
                   statusMessage := orKeep (u_statusMessage u) (statusMessage t),
                   resultPath := orKeep (u_resultPath u) (resultPath t),
                   errorMessage := orKeep (u_errorMessage u) (errorMessage t),
                   processingTime := orKeep (u_processingTime u) (processingTime t),
                   outputSize := orKeep (u_outputSize u) (outputSize t)\<rparr>;
               updated =
                 (if u_status u = Some ''completed'' \<or> u_status u = Some ''failed''
                  then merged\<lparr>completedAt := Some now\<rparr> else merged)
           in (Some updated, st\<lparr>transformations := mapSet i updated (transformations st)\<rparr>)))"

record options =
  validateXml :: bool
  resolveDeps :: bool
  generatePreview :: bool
  validateWithXsd :: bool
  xsdFile :: "storedFile option"

text \<open>
  A run of \<open>processTransformation\<close> is given as the history of the registry: the list of
  its successive states, one more after every write. These are the states a reader of
  the registry can observe.
\<close>

definition putUpdate :: "env \<Rightarrow> ident \<Rightarrow> transformationUpdates \<Rightarrow> storage list \<Rightarrow> storage list" where
  "putUpdate e i u h = h @ [snd (updateTransformation i u (clock e (length h)) (last h))]"

text \<open>The check mark of the status messages (U+2705), written as its UTF-8 bytes.\<close>

definition checkMark :: string where
  "checkMark = [CHR 0xE2, CHR 0x9C, CHR 0x85]"

text \<open>
  From \<^verbatim>\<open>progress: ... ? '50' : '40'\<close> to the end of the function: the execution, the
  final update, and the handler that catches what the execution throws.
\<close>

definition executionStage ::
  "env \<Rightarrow> ident \<Rightarrow> storedFile \<Rightarrow> storedFile \<Rightarrow> options \<Rightarrow> timestamp \<Rightarrow> storage list
     \<Rightarrow> storage list" where
  "executionStage e i xmlFile xslFile opts startTime h0 =
     (let h = putUpdate e i
                (noUpdates\<lparr>u_progress := Some (if validateWithXsd opts \<or> resolveDeps opts
                                                 then ''50'' else ''40''),
                            u_statusMessage := Some ''Parsing XML and XSL files...''\<rparr>) h0;
          outputPath = outputPathFor e i;
          h = putUpdate e i
                (noUpdates\<lparr>u_progress := Some ''60'',
                            u_statusMessage :=
                              Some (''Executing XSLT transformation ('' @ originalName xmlFile
                                    @ '' + '' @ originalName xslFile @ '')...'')\<rparr>) h
      in case processXsltTransformation e (last h) (filePath xmlFile) (filePath xslFile)
                outputPath of
           Inl error \<Rightarrow>
             putUpdate e i
               (noUpdates\<lparr>u_status := Some ''failed'', u_progress := Some ''0'',
                           u_statusMessage := Some ''Transformation failed'',
                           u_errorMessage := Some (messageOr ''Unknown error'' error)\<rparr>) h
         | Inr written \<Rightarrow>
             (let h = putUpdate e i
                        (noUpdates\<lparr>u_progress := Some ''85'',
                                    u_statusMessage := Some ''Finalizing HTML output...''\<rparr>) h;
                  size = utf8Length written;
                  processingTime =
                    formatSeconds e (int (clock e (length h)) - int startTime)
              in putUpdate e i
                   (noUpdates\<lparr>u_status := Some ''completed'', u_progress := Some ''100'',
                               u_statusMessage :=
                                 Some (checkMark @ '' Transformation complete! Generated ''
                                       @ formatKB e size @ '' KB output in '' @ processingTime
                                       @ ''s''),
                               u_resultPath := Some outputPath,
                               u_processingTime := Some (processingTime @ ''s''),
                               u_outputSize := Some (formatKB e size @ '' KB'')\<rparr>) h))"

text \<open>The stage \<^verbatim>\<open>if (options.resolveDeps) { ... }\<close> and what follows it.\<close>

definition dependencyStage ::
  "env \<Rightarrow> ident \<Rightarrow> storedFile \<Rightarrow> storedFile \<Rightarrow> options \<Rightarrow> timestamp \<Rightarrow> storage list
     \<Rightarrow> storage list" where
  "dependencyStage e i xmlFile xslFile opts startTime h0 =
     (if resolveDeps opts
      then (let h = putUpdate e i
                      (noUpdates\<lparr>u_progress := Some (if validateWithXsd opts then ''35''
                                                        else ''30''),
                                  u_statusMessage :=
                                    Some ''Resolving XSL dependencies and imports...''\<rparr>) h0;
                (errors, st) = resolveDependencies (readFile e) (fileId xslFile)
                                 (filePath xslFile) (last h);
                h = h @ [st]
            in if length errors > 0
               then putUpdate e i
                      (noUpdates\<lparr>u_status := Some ''failed'',
                                  u_errorMessage := Some (join ''; '' errors)\<rparr>) h
               else executionStage e i xmlFile xslFile opts startTime h)
      else executionStage e i xmlFile xslFile opts startTime h0)"

text \<open>
  \<open>processTransformation\<close>, started on the history \<open>h0\<close> so far; it returns the history
  extended by its writes.
\<close>

definition processTransformation ::
  "env \<Rightarrow> ident \<Rightarrow> storedFile \<Rightarrow> storedFile \<Rightarrow> options \<Rightarrow> storage list \<Rightarrow> storage list" where
  "processTransformation e i xmlFile xslFile opts h0 =
     (let startTime = clock e (length h0);
          h = putUpdate e i
                (noUpdates\<lparr>u_status := Some ''processing'', u_progress := Some ''10'',
                            u_statusMessage :=
                              Some (if validateWithXsd opts then ''Preparing XSD validation...''
                                    else ''Preparing transformation...'')\<rparr>) h0
      in case (if validateWithXsd opts then xsdFile opts else None) of
           Some xsd \<Rightarrow>
             (let h = putUpdate e i
                        (noUpdates\<lparr>u_progress := Some ''15'',
                                    u_statusMessage :=
                                      Some (''Validating XML against XSD schema (''
                                            @ originalName xsd @ '')...'')\<rparr>) h;
                  xsdValidationResult = xsdCheck e (filePath xmlFile) (filePath xsd)
              in if \<not> vr_isValid xsdValidationResult
                 then putUpdate e i
                        (noUpdates\<lparr>u_status := Some ''failed'',
                                    u_errorMessage :=
                                      Some (''XSD Validation Failed: '' @
                                            (case vr_error xsdValidationResult of
                                               None \<Rightarrow> ''undefined'' | Some m \<Rightarrow> m))\<rparr>) h
                 else dependencyStage e i xmlFile xslFile opts startTime
                        (putUpdate e i
                           (noUpdates\<lparr>u_progress := Some ''25'',
                                       u_statusMessage :=
                                         Some (checkMark @
                                               '' XSD validation passed - XML schema compliant'')\<rparr>)
                           h))
         | None \<Rightarrow> dependencyStage e i xmlFile xslFile opts startTime h)"

subsection \<open>The route that starts a job (POST /api/transform)\<close>

record transformRequest =
  rq_xmlFileId :: "ident option"
  rq_xslFileId :: "ident option"
  rq_xsdFileId :: "ident option"
  rq_validateXml :: bool
  rq_resolveDeps :: bool
  rq_generatePreview :: bool
  rq_validateWithXsd :: bool

datatype transformResponse =
    Rejected nat string
  | Started transformation

text \<open>
  The route answers with the job as created and lets \<open>processTransformation\<close> run on its
  own; the history returned is the one of the whole run, from the creation of the job on.
  The history of a rejected request is the registry as it was.
\<close>

definition startTransformation ::
  "env \<Rightarrow> transformRequest \<Rightarrow> storage \<Rightarrow> transformResponse \<times> storage list" where
  "startTransformation e rq st =
     (case (rq_xmlFileId rq, rq_xslFileId rq) of
        (Some xmlId, Some xslId) \<Rightarrow>
          (case (getFile xmlId st, getFile xslId st) of
             (Some xmlFile, Some xslFile) \<Rightarrow>
               (if rq_validateWithXsd rq \<and> rq_xsdFileId rq = None
                then (Rejected 400 ''XSD validation enabled but no XSD file provided'', [st])
                else if rq_validateWithXsd rq \<and>
                        (case rq_xsdFileId rq of Some x \<Rightarrow> getFile x st = None | None \<Rightarrow> False)
                then (Rejected 404 ''XSD file not found'', [st])
                else
                  (let xsd = (if rq_validateWithXsd rq
                              then (case rq_xsdFileId rq of Some x \<Rightarrow> getFile x st
                                    | None \<Rightarrow> None)
                              else None);
                       (t, st1) = createTransformation
                                    \<lparr>it_xmlFileId = xmlId, it_xslFileId = xslId,
                                     it_xsdFileId = (if rq_validateWithXsd rq
                                                     then rq_xsdFileId rq else None),
                                     it_status = ''queued'', it_progress = Some ''0'',
                                     it_statusMessage = None, it_resultPath = None,
                                     it_errorMessage = None, it_processingTime = None,
                                     it_outputSize = None\<rparr> (clock e 0) st
                   in (Started t,
                       processTransformation e (transformationId t) xmlFile xslFile
                         \<lparr>validateXml = rq_validateXml rq, resolveDeps = rq_resolveDeps rq,
                          generatePreview = rq_generatePreview rq,
                          validateWithXsd = rq_validateWithXsd rq, xsdFile = xsd\<rparr>
                         [st1])))
           | _ \<Rightarrow> (Rejected 404 ''One or both files not found'', [st]))
      | _ \<Rightarrow> (Rejected 400 ''Both XML and XSL file IDs are required'', [st]))"

text \<open>The successive states of one job along a history, and the percentage it shows.\<close>

definition jobStates :: "ident \<Rightarrow> storage list \<Rightarrow> transformation list" where
  "jobStates i h = concat (map (\<lambda>st. case getTransformation i st of None \<Rightarrow> [] | Some t \<Rightarrow> [t]) h)"

text \<open>\<^verbatim>\<open>parseInt(transformation.progress || '0')\<close> on a string of decimal digits.\<close>

definition digitValue :: "char \<Rightarrow> nat" where
  "digitValue c = (case map_of (zip ''0123456789'' [0, 1, 2, 3, 4, 5, 6, 7, 8, 9]) c of
                     Some d \<Rightarrow> d | None \<Rightarrow> 0)"

definition percent :: "transformation \<Rightarrow> nat" where
  "percent t =
     (case progress t of
        None \<Rightarrow> 0
      | Some p \<Rightarrow> foldl (\<lambda>n c. 10 * n + digitValue c) 0 p)"

section \<open>Properties of the registry and the upload route\<close>

lemma fold_max_ge: "a \<le> fold max xs (a::nat)"
  by (induction xs arbitrary: a) (auto intro: le_trans[OF max.cobounded2])

lemma fold_max_mem: "x \<in> set xs \<Longrightarrow> x \<le> fold max xs (a::nat)"
proof (induction xs arbitrary: a)
  case Nil
  then show ?case by simp
next
  case (Cons y ys)
  show ?case
  proof (cases "x = y")
    case True
    have "y \<le> max y a" by simp
    also have "\<dots> \<le> fold max ys (max y a)" by (rule fold_max_ge)
    finally show ?thesis using True by simp
  next
    case False
    with Cons.prems have "x \<in> set ys" by simp
    from Cons.IH[OF this] show ?thesis by simp
  qed
qed

lemma randomUUID_fresh: "randomUUID st \<notin> set (usedIds st)"
proof
  assume "randomUUID st \<in> set (usedIds st)"
  then have "randomUUID st \<le> fold max (usedIds st) 0" by (rule fold_max_mem)
  then show False by (simp add: randomUUID_def)
qed

lemma mapSet_fresh: "k \<notin> fst ` set kvs \<Longrightarrow> mapSet k v kvs = kvs @ [(k, v)]"
  by (induction kvs) auto









section \<open>Properties of dependency resolution\<close>

text \<open>The stored file that \<open>resolveDependencies\<close> finds for a referenced path.\<close>

definition resolvesTo :: "storage \<Rightarrow> string \<Rightarrow> storedFile option" where
  "resolvesTo st p = find (\<lambda>f. originalName f = p \<or> filename f = p) (getAllFiles st)"

lemma map_of_snoc_fresh: "k \<notin> fst ` set kvs \<Longrightarrow> map_of (kvs @ [(k, v)]) k = Some v"
  by (induction kvs) auto

lemma mapSet_snoc_fresh: "k \<notin> fst ` set kvs \<Longrightarrow> mapSet k w (kvs @ [(k, v)]) = kvs @ [(k, w)]"
  by (induction kvs) auto

text \<open>The record that the loop leaves for a directive with path \<open>p\<close>, under identifier \<open>i\<close>.\<close>

definition recordFor :: "storage \<Rightarrow> ident \<Rightarrow> ident \<Rightarrow> string \<Rightarrow> dependency" where
  "recordFor st i xslId p =
     \<lparr>dependencyId = i, depXslFileId = xslId, dependencyPath = p,
      resolvedFileId = map_option fileId (resolvesTo st p),
      depStatus = (if resolvesTo st p = None then ''missing'' else ''resolved'')\<rparr>"

lemma resolve_step:
  assumes "createDependency \<lparr>id_xslFileId = xslId, id_dependencyPath = p,
                               id_resolvedFileId = None, id_status = ''pending''\<rparr> st = (dep, st1)"
  shows "dependencyId dep = randomUUID st"
    and "getAllFiles st1 = getAllFiles st"
    and "snd (updateDependency (dependencyId dep) \<lparr>upd_resolvedFileId = Some (fileId f),
                             upd_depStatus = Some ''resolved''\<rparr> st1) =
          st\<lparr>dependencies := dependencies st @ [(randomUUID st, dep\<lparr>resolvedFileId := Some (fileId f), depStatus := ''resolved''\<rparr>)]\<rparr>"
    and "snd (updateDependency (dependencyId dep) \<lparr>upd_resolvedFileId = None,
                             upd_depStatus = Some ''missing''\<rparr> st1) =
          st\<lparr>dependencies := dependencies st @ [(randomUUID st, dep\<lparr>depStatus := ''missing''\<rparr>)]\<rparr>"
    and "dep = \<lparr>dependencyId = randomUUID st, depXslFileId = xslId, dependencyPath = p,
      resolvedFileId = None, depStatus = ''pending''\<rparr>"
proof -
  have fr: "randomUUID st \<notin> fst ` set (dependencies st)"
    using randomUUID_fresh[of st] by (auto simp: usedIds_def)
  from assms have dep: "dep = \<lparr>dependencyId = randomUUID st, depXslFileId = xslId, dependencyPath = p,
      resolvedFileId = None, depStatus = ''pending''\<rparr>"
    and st1: "st1 = st\<lparr>dependencies := dependencies st @ [(randomUUID st, dep)]\<rparr>"
    using fr by (auto simp: createDependency_def Let_def mapSet_fresh)
  show "dependencyId dep = randomUUID st" using dep by simp
  show "getAllFiles st1 = getAllFiles st" using st1 by (simp add: getAllFiles_def)
  show "snd (updateDependency (dependencyId dep) \<lparr>upd_resolvedFileId = Some (fileId f),
                             upd_depStatus = Some ''resolved''\<rparr> st1) =
          st\<lparr>dependencies := dependencies st @ [(randomUUID st, dep\<lparr>resolvedFileId := Some (fileId f), depStatus := ''resolved''\<rparr>)]\<rparr>"
    using fr dep st1
    by (simp add: updateDependency_def map_of_snoc_fresh mapSet_snoc_fresh Let_def
             del: map_of_append)
  show "snd (updateDependency (dependencyId dep) \<lparr>upd_resolvedFileId = None,
                             upd_depStatus = Some ''missing''\<rparr> st1) =
          st\<lparr>dependencies := dependencies st @ [(randomUUID st, dep\<lparr>depStatus := ''missing''\<rparr>)]\<rparr>"
    using fr dep st1
    by (simp add: updateDependency_def map_of_snoc_fresh mapSet_snoc_fresh Let_def
             del: map_of_append)
  show "dep = \<lparr>dependencyId = randomUUID st, depXslFileId = xslId, dependencyPath = p,
      resolvedFileId = None, depStatus = ''pending''\<rparr>" by (rule dep)
qed

lemma resolveLoop_Some:
  assumes "exec includeRegex text = Some mt"
  shows "resolveLoop xslId text errors st =
     resolveLoop xslId (follows mt)
       (errors @ (if resolvesTo st (group 2 mt) = None then [''Missing dependency: '' @ group 2 mt] else []))
       (st\<lparr>dependencies := dependencies st @ [(randomUUID st, recordFor st (randomUUID st) xslId (group 2 mt))]\<rparr>)"
proof -
  obtain dep st1 where c: "createDependency \<lparr>id_xslFileId = xslId, id_dependencyPath = group 2 mt,
                               id_resolvedFileId = None, id_status = ''pending''\<rparr> st = (dep, st1)"
    by (cases "createDependency \<lparr>id_xslFileId = xslId, id_dependencyPath = group 2 mt,
                               id_resolvedFileId = None, id_status = ''pending''\<rparr> st")
  note r = resolve_step[OF c]
  show ?thesis
  proof (cases "resolvesTo st (group 2 mt)")
    case None
    then show ?thesis
      using assms c r(2) r(4) r(1)
      apply (subst resolveLoop.simps)
      apply (simp add: resolvesTo_def recordFor_def r(5) Let_def)
      done
  next
    case (Some f)
    then show ?thesis
      using assms c r(2) r(3)[of f] r(1)
      apply (subst resolveLoop.simps)
      apply (simp add: resolvesTo_def recordFor_def r(5) Let_def)
      done
  qed
qed


lemma resolvesTo_dependencies [simp]:
  "resolvesTo (st\<lparr>dependencies := ds\<rparr>) p = resolvesTo st p"
  by (simp add: resolvesTo_def getAllFiles_def)

lemma recordFor_dependencies [simp]:
  "recordFor (st\<lparr>dependencies := ds\<rparr>) i x p = recordFor st i x p"
  by (simp add: recordFor_def)

definition missingPaths :: "storage \<Rightarrow> string \<Rightarrow> string list" where
  "missingPaths st text = filter (\<lambda>p. resolvesTo st p = None) (map snd (directives text))"

lemma resolveLoop_spec:
  "\<exists>new. snd (resolveLoop xslId xsl errors st) = st\<lparr>dependencies := dependencies st @ new\<rparr> \<and>
         list_all2 (\<lambda>(i, d) (operation, p). d = recordFor st i xslId p) new (directives xsl) \<and>
         distinct (map fst new) \<and> set (map fst new) \<inter> set (usedIds st) = {} \<and>
         fst (resolveLoop xslId xsl errors st) =
           errors @ map (\<lambda>p. ''Missing dependency: '' @ p) (missingPaths st xsl)"
proof (induction xsl arbitrary: errors st rule: directives.induct)
  case (1 xsl)
  show ?case
  proof (cases "exec includeRegex xsl")
    case None
    then have "resolveLoop xslId xsl errors st = (errors, st)" "directives xsl = []"
      by (simp_all add: resolveLoop.simps directives.simps)
    then show ?thesis by (intro exI[of _ "[]"]) (simp add: missingPaths_def)
  next
    case (Some mt)
    let ?i = "randomUUID st"
    let ?p = "group 2 mt"
    let ?st2 = "st\<lparr>dependencies := dependencies st @ [(?i, recordFor st ?i xslId ?p)]\<rparr>"
    let ?e2 = "errors @ (if resolvesTo st ?p = None then [''Missing dependency: '' @ ?p] else [])"
    have unf: "resolveLoop xslId xsl errors st = resolveLoop xslId (follows mt) ?e2 ?st2"
      by (rule resolveLoop_Some[OF Some])
    have dirs: "directives xsl = (group 1 mt, ?p) # directives (follows mt)"
      using Some by (subst directives.simps) simp
    from "1.IH"[OF Some, of ?e2 ?st2] obtain new where
      n1: "snd (resolveLoop xslId (follows mt) ?e2 ?st2) = ?st2\<lparr>dependencies := dependencies ?st2 @ new\<rparr>"
      and n2: "list_all2 (\<lambda>(i, d) (operation, p). d = recordFor ?st2 i xslId p) new (directives (follows mt))"
      and n3: "distinct (map fst new)"
      and n4: "set (map fst new) \<inter> set (usedIds ?st2) = {}"
      and n5: "fst (resolveLoop xslId (follows mt) ?e2 ?st2) =
           ?e2 @ map (\<lambda>p. ''Missing dependency: '' @ p) (missingPaths ?st2 (follows mt))"
      by blast
    have used: "set (usedIds ?st2) = insert ?i (set (usedIds st))"
      by (auto simp: usedIds_def)
    have fresh: "?i \<notin> set (usedIds st)" by (rule randomUUID_fresh)
    let ?new = "(?i, recordFor st ?i xslId ?p) # new"
    have "snd (resolveLoop xslId xsl errors st) = st\<lparr>dependencies := dependencies st @ ?new\<rparr>"
      using unf n1 by simp
    moreover have "list_all2 (\<lambda>(i, d) (operation, p). d = recordFor st i xslId p) ?new (directives xsl)"
      using n2 dirs by simp
    moreover have "distinct (map fst ?new)" using n3 n4 used by auto
    moreover have "set (map fst ?new) \<inter> set (usedIds st) = {}" using n4 used fresh by auto
    moreover have "fst (resolveLoop xslId xsl errors st) =
           errors @ map (\<lambda>p. ''Missing dependency: '' @ p) (missingPaths st xsl)"
      using unf n5 dirs by (simp add: missingPaths_def)
    ultimately show ?thesis by blast
  qed
qed


lemma recordFor_simps [simp]:
  "depXslFileId (recordFor st i x p) = x"
  "dependencyPath (recordFor st i x p) = p"
  "dependencyId (recordFor st i x p) = i"
  "depStatus (recordFor st i x p) = (if resolvesTo st p = None then ''missing'' else ''resolved'')"
  "resolvedFileId (recordFor st i x p) = map_option fileId (resolvesTo st p)"
  by (simp_all add: recordFor_def)







section \<open>Properties of the job controller\<close>

text \<open>What one update makes of a job.\<close>

definition applied :: "transformationUpdates \<Rightarrow> timestamp \<Rightarrow> transformation \<Rightarrow> transformation" where
  "applied u now t =
     (let merged =
            t\<lparr>status := (case u_status u of None \<Rightarrow> status t | Some v \<Rightarrow> v),
              progress := orKeep (u_progress u) (progress t),
              statusMessage := orKeep (u_statusMessage u) (statusMessage t),
              resultPath := orKeep (u_resultPath u) (resultPath t),
              errorMessage := orKeep (u_errorMessage u) (errorMessage t),
              processingTime := orKeep (u_processingTime u) (processingTime t),
              outputSize := orKeep (u_outputSize u) (outputSize t)\<rparr>
      in if u_status u = Some ''completed'' \<or> u_status u = Some ''failed''
         then merged\<lparr>completedAt := Some now\<rparr> else merged)"

lemma map_of_mapSet: "map_of (mapSet k v kvs) = (map_of kvs)(k \<mapsto> v)"
  by (induction kvs) (auto simp: fun_eq_iff)

lemma updateTransformation_present:
  assumes "getTransformation i st = Some t"
  shows "getTransformation i (snd (updateTransformation i u now st)) = Some (applied u now t)"
    and "files (snd (updateTransformation i u now st)) = files st"
    and "dependencies (snd (updateTransformation i u now st)) = dependencies st"
  using assms
  by (simp_all add: getTransformation_def updateTransformation_def applied_def Let_def map_of_mapSet)

lemma jobStates_append [simp]: "jobStates i (h @ h') = jobStates i h @ jobStates i h'"
  by (simp add: jobStates_def)

lemma jobStates_single: "getTransformation i st = Some t \<Longrightarrow> jobStates i [st] = [t]"
  by (simp add: jobStates_def)

text \<open>A history whose last state holds the job in state \<open>t\<close>.\<close>

definition holds :: "ident \<Rightarrow> storage list \<Rightarrow> transformation \<Rightarrow> bool" where
  "holds i h t = (h \<noteq> [] \<and> getTransformation i (last h) = Some t)"

lemma putUpdate_holds:
  assumes "holds i h t"
  shows "holds i (putUpdate e i u h) (applied u (clock e (length h)) t)"
    and "jobStates i (putUpdate e i u h) = jobStates i h @ [applied u (clock e (length h)) t]"
    and "files (last (putUpdate e i u h)) = files (last h)"
    and "dependencies (last (putUpdate e i u h)) = dependencies (last h)"
    and "length (putUpdate e i u h) = Suc (length h)"
  using assms
  by (simp_all add: holds_def putUpdate_def updateTransformation_present jobStates_single)


lemma resolveIncludesLoop_files:
  "files st = files st' \<Longrightarrow> resolveIncludesLoop rd st t r = resolveIncludesLoop rd st' t r"
proof (induction rd st t r rule: resolveIncludesLoop.induct)
  case (1 rd st xsl r)
  from "1.prems" have pool: "getAllFiles st = getAllFiles st'" by (simp add: getAllFiles_def)
  show ?case
  proof (cases "exec includeElementRegex xsl")
    case None
    then show ?thesis by (simp add: resolveIncludesLoop.simps)
  next
    case (Some mt)
    note ih = "1.IH"[OF Some refl refl refl "1.prems"]
    show ?thesis
      apply (subst resolveIncludesLoop.simps)
      apply (subst (2) resolveIncludesLoop.simps)
      using Some ih pool
      apply (simp add: Let_def cong: option.case_cong sum.case_cong)
      done
  qed
qed

lemma fallbackAttempt_files:
  "files st = files st' \<Longrightarrow> fallbackAttempt e st a b c = fallbackAttempt e st' a b c"
  by (simp add: fallbackAttempt_def resolveXslIncludes_def resolveIncludesLoop_files[of st st']
           cong: sum.case_cong)

lemma processXsltTransformation_files:
  "files st = files st' \<Longrightarrow>
   processXsltTransformation e st a b c = processXsltTransformation e st' a b c"
  by (simp add: processXsltTransformation_def fallbackAttempt_files[of st st']
           cong: sum.case_cong)


text \<open>
  A job that is still running, and a list of successive job states whose percentages do
  not decrease and end at most at \<open>n\<close>.
\<close>

definition nonTerminal :: "transformation \<Rightarrow> bool" where
  "nonTerminal t =
     (status t \<noteq> ''completed'' \<and> status t \<noteq> ''failed'' \<and> completedAt t = None \<and>
      errorMessage t = None \<and> progress t \<noteq> Some ''100'')"

definition running :: "nat \<Rightarrow> transformation list \<Rightarrow> bool" where
  "running n ts =
     (ts \<noteq> [] \<and> sorted (map percent ts) \<and> percent (last ts) \<le> n \<and> (\<forall>t \<in> set ts. nonTerminal t))"

lemma sorted_le_last: "sorted xs \<Longrightarrow> x \<in> set xs \<Longrightarrow> x \<le> last (xs :: nat list)"
  by (induction xs) auto

lemma running_snoc:
  assumes "running n ts" "nonTerminal t" "n \<le> percent t"
  shows "running (percent t) (ts @ [t])"
proof -
  from assms(1) have s: "sorted (map percent ts)" and l: "percent (last ts) \<le> n" and ne: "ts \<noteq> []"
    by (auto simp: running_def)
  have "\<forall>x \<in> set (map percent ts). x \<le> percent (last ts)"
    using sorted_le_last[OF s] ne by (simp add: last_map)
  with l assms(3) have "\<forall>x \<in> set (map percent ts). x \<le> percent t" by auto
  with s have "sorted (map percent (ts @ [t]))" by (simp add: sorted_append)
  with assms show ?thesis by (auto simp: running_def)
qed

lemma running_weaken: "running n ts \<Longrightarrow> n \<le> m \<Longrightarrow> running m ts"
  by (auto simp: running_def)

lemma running_repeat: "running n ts \<Longrightarrow> running n (ts @ [last ts])"
proof -
  assume r: "running n ts"
  then have nt: "nonTerminal (last ts)" and l: "percent (last ts) \<le> n" by (auto simp: running_def)
  have r': "running (percent (last ts)) ts" using r by (auto simp: running_def)
  from running_snoc[OF r' nt] have "running (percent (last ts)) (ts @ [last ts])" by simp
  then show ?thesis using l by (rule running_weaken)
qed


text \<open>The percentage a progress string shows.\<close>

definition pct :: "string \<Rightarrow> nat" where
  "pct p = foldl (\<lambda>n c. 10 * n + digitValue c) 0 p"

lemma percent_applied:
  "percent (applied u now t) = (case u_progress u of None \<Rightarrow> percent t | Some p \<Rightarrow> pct p)"
  by (simp add: percent_def applied_def pct_def orKeep_def Let_def split: option.splits)

lemma applied_fields:
  "status (applied u now t) = (case u_status u of None \<Rightarrow> status t | Some v \<Rightarrow> v)"
  "progress (applied u now t) = orKeep (u_progress u) (progress t)"
  "statusMessage (applied u now t) = orKeep (u_statusMessage u) (statusMessage t)"
  "resultPath (applied u now t) = orKeep (u_resultPath u) (resultPath t)"
  "errorMessage (applied u now t) = orKeep (u_errorMessage u) (errorMessage t)"
  "completedAt (applied u now t) =
     (if u_status u = Some ''completed'' \<or> u_status u = Some ''failed'' then Some now
      else completedAt t)"
  by (simp_all add: applied_def Let_def)

text \<open>
  The states of a finished run: running states, then one terminal state, which is either
  completed at 100 or failed with an error text and the progress it had (or progress 0
  under the message of the catch-all handler).
\<close>

definition finishedRun :: "transformation list \<Rightarrow> bool" where
  "finishedRun ts =
     (\<exists>pre fin. ts = pre @ [fin] \<and> running 100 pre \<and> completedAt fin \<noteq> None \<and>
        ((status fin = ''completed'' \<and> progress fin = Some ''100'' \<and> errorMessage fin = None \<and>
          resultPath fin \<noteq> None) \<or>
         (status fin = ''failed'' \<and> errorMessage fin \<noteq> None \<and>
          (progress fin = progress (last pre) \<or>
           (progress fin = Some ''0'' \<and> statusMessage fin = Some ''Transformation failed'')))))"

text \<open>The job is held by the last state of the history and has run up to \<open>n\<close> percent.\<close>

definition at :: "ident \<Rightarrow> storage list \<Rightarrow> nat \<Rightarrow> bool" where
  "at i h n = (\<exists>t. holds i h t \<and> last (jobStates i h) = t \<and> running n (jobStates i h))"

lemma at_putUpdate:
  assumes "at i h n"
    and "u_status u = None \<or> u_status u = Some ''processing''"
    and "u_errorMessage u = None"
    and "u_progress u = Some p" "p \<noteq> ''100''" "n \<le> pct p" "pct p \<le> m"
  shows "at i (putUpdate e i u h) m"
proof -
  from assms(1) obtain t where t: "holds i h t" "last (jobStates i h) = t" "running n (jobStates i h)"
    by (auto simp: at_def)
  let ?t' = "applied u (clock e (length h)) t"
  from t have nt: "nonTerminal t" by (auto simp: running_def)
  have nt': "nonTerminal ?t'"
    using nt assms(2-5) by (auto simp: nonTerminal_def applied_fields orKeep_def)
  have p: "percent ?t' = pct p" using assms(4) by (simp add: percent_applied)
  from running_snoc[OF t(3) nt'] assms(6) p have "running (pct p) (jobStates i h @ [?t'])" by simp
  then have "running m (jobStates i h @ [?t'])" using assms(7) by (rule running_weaken)
  with putUpdate_holds(1,2)[OF t(1), of e u] show ?thesis by (auto simp: at_def)
qed

lemma at_snapshot:
  assumes "at i h n" "transformations st = transformations (last h)"
  shows "at i (h @ [st]) n"
proof -
  from assms(1) obtain t where t: "holds i h t" "last (jobStates i h) = t" "running n (jobStates i h)"
    by (auto simp: at_def)
  from t(1) assms(2) have g: "getTransformation i st = Some t" by (simp add: holds_def getTransformation_def)
  then have "jobStates i (h @ [st]) = jobStates i h @ [last (jobStates i h)]"
    using t(2) by (simp add: jobStates_single)
  with running_repeat[OF t(3)] g t(2) show ?thesis by (auto simp: at_def holds_def)
qed

lemma at_finish:
  assumes "at i h n" "n \<le> 100"
    and "u_status u = Some ''completed'' \<and> u_progress u = Some ''100'' \<and> u_errorMessage u = None \<and>
           u_resultPath u \<noteq> None \<or>
         u_status u = Some ''failed'' \<and> u_errorMessage u \<noteq> None \<and>
           (u_progress u = None \<or>
            u_progress u = Some ''0'' \<and> u_statusMessage u = Some ''Transformation failed'')"
  shows "finishedRun (jobStates i (putUpdate e i u h))"
proof -
  from assms(1) obtain t where t: "holds i h t" "last (jobStates i h) = t" "running n (jobStates i h)"
    by (auto simp: at_def)
  let ?t' = "applied u (clock e (length h)) t"
  from t have nt: "nonTerminal t" by (auto simp: running_def)
  have r: "running 100 (jobStates i h)" using t(3) assms(2) by (rule running_weaken)
  have js: "jobStates i (putUpdate e i u h) = jobStates i h @ [?t']"
    by (rule putUpdate_holds(2)[OF t(1)])
  have "completedAt ?t' \<noteq> None" using assms(3) by (auto simp: applied_fields)
  moreover have "(status ?t' = ''completed'' \<and> progress ?t' = Some ''100'' \<and> errorMessage ?t' = None \<and>
          resultPath ?t' \<noteq> None) \<or>
         (status ?t' = ''failed'' \<and> errorMessage ?t' \<noteq> None \<and>
          (progress ?t' = progress (last (jobStates i h)) \<or>
           (progress ?t' = Some ''0'' \<and> statusMessage ?t' = Some ''Transformation failed'')))"
    using assms(3) nt t(2) by (auto simp: applied_fields orKeep_def nonTerminal_def)
  ultimately show ?thesis unfolding finishedRun_def js using r by blast
qed


lemma pct_values [simp]:
  "pct ''0'' = 0" "pct ''10'' = 10" "pct ''15'' = 15" "pct ''25'' = 25" "pct ''30'' = 30"
  "pct ''35'' = 35" "pct ''40'' = 40" "pct ''50'' = 50" "pct ''60'' = 60" "pct ''85'' = 85"
  "pct ''100'' = 100"
  by (simp_all add: pct_def digitValue_def)

lemma resolveDependencies_transformations:
  "transformations (snd (resolveDependencies rd x p st)) = transformations st"
proof (cases "rd p")
  case (Inl a)
  then show ?thesis by (simp add: resolveDependencies_def)
next
  case (Inr xsl)
  from resolveLoop_spec[of x xsl "[]" st] obtain new where
    "snd (resolveLoop x xsl [] st) = st\<lparr>dependencies := dependencies st @ new\<rparr>" by blast
  with Inr show ?thesis by (simp add: resolveDependencies_def)
qed

lemma executionStage_finished:
  assumes "at i h0 40"
  shows "finishedRun (jobStates i (executionStage e i xf sf opts st0 h0))"
proof -
  let ?u1 = "noUpdates\<lparr>u_progress := Some (if validateWithXsd opts \<or> resolveDeps opts
                                                 then ''50'' else ''40''),
                            u_statusMessage := Some ''Parsing XML and XSL files...''\<rparr>"
  let ?h1 = "putUpdate e i ?u1 h0"
  have a1: "at i ?h1 50"
    by (rule at_putUpdate[OF assms, where p = "if validateWithXsd opts \<or> resolveDeps opts
                                                 then ''50'' else ''40''"])
       (auto simp: noUpdates_def)
  let ?u2 = "noUpdates\<lparr>u_progress := Some ''60'',
                            u_statusMessage :=
                              Some (''Executing XSLT transformation ('' @ originalName xf
                                    @ '' + '' @ originalName sf @ '')...'')\<rparr>"
  let ?h2 = "putUpdate e i ?u2 ?h1"
  have a2: "at i ?h2 60"
    by (rule at_putUpdate[OF a1, where p = "''60''"]) (auto simp: noUpdates_def)
  show ?thesis
  proof (cases "processXsltTransformation e (last ?h2) (filePath xf) (filePath sf) (outputPathFor e i)")
    case (Inl x)
    have "finishedRun (jobStates i (putUpdate e i
               (noUpdates\<lparr>u_status := Some ''failed'', u_progress := Some ''0'',
                           u_statusMessage := Some ''Transformation failed'',
                           u_errorMessage := Some (messageOr ''Unknown error'' x)\<rparr>) ?h2))"
      by (rule at_finish[OF a2]) (auto simp: noUpdates_def)
    with Inl show ?thesis
      unfolding executionStage_def Let_def by simp
  next
    case (Inr w)
    let ?u3 = "noUpdates\<lparr>u_progress := Some ''85'',
                                    u_statusMessage := Some ''Finalizing HTML output...''\<rparr>"
    have a3: "at i (putUpdate e i ?u3 ?h2) 85"
      by (rule at_putUpdate[OF a2, where p = "''85''"]) (auto simp: noUpdates_def)
    have "\<And>u. u_status u = Some ''completed'' \<Longrightarrow> u_progress u = Some ''100'' \<Longrightarrow>
              u_errorMessage u = None \<Longrightarrow> u_resultPath u \<noteq> None \<Longrightarrow>
              finishedRun (jobStates i (putUpdate e i u (putUpdate e i ?u3 ?h2)))"
      by (rule at_finish[OF a3]) auto
    from this[of "noUpdates\<lparr>u_status := Some ''completed'', u_progress := Some ''100'',
                               u_statusMessage :=
                                 Some (checkMark @ '' Transformation complete! Generated ''
                                       @ formatKB e (utf8Length w) @ '' KB output in '' @ formatSeconds e (int (clock e (length (putUpdate e i ?u3 ?h2))) - int st0)
                                       @ ''s''),
                               u_resultPath := Some (outputPathFor e i),
                               u_processingTime := Some (formatSeconds e (int (clock e (length (putUpdate e i ?u3 ?h2))) - int st0) @ ''s''),
                               u_outputSize := Some (formatKB e (utf8Length w) @ '' KB'')\<rparr>"] Inr
    show ?thesis
      unfolding executionStage_def Let_def by (simp add: noUpdates_def)
  qed
qed

lemma dependencyStage_finished:
  assumes "at i h0 25"
  shows "finishedRun (jobStates i (dependencyStage e i xf sf opts st0 h0))"
proof (cases "resolveDeps opts")
  case False
  from assms have "at i h0 40" by (auto simp: at_def intro: running_weaken)
  from executionStage_finished[OF this] False show ?thesis by (simp add: dependencyStage_def)
next
  case True
  let ?u1 = "noUpdates\<lparr>u_progress := Some (if validateWithXsd opts then ''35''
                                                        else ''30''),
                                  u_statusMessage :=
                                    Some ''Resolving XSL dependencies and imports...''\<rparr>"
  let ?h1 = "putUpdate e i ?u1 h0"
  have a1: "at i ?h1 35"
    by (rule at_putUpdate[OF assms, where p = "if validateWithXsd opts then ''35'' else ''30''"])
       (auto simp: noUpdates_def)
  obtain errors st where rd: "resolveDependencies (readFile e) (fileId sf) (filePath sf) (last ?h1) = (errors, st)"
    by (cases "resolveDependencies (readFile e) (fileId sf) (filePath sf) (last ?h1)")
  have "transformations st = transformations (last ?h1)"
    using resolveDependencies_transformations[of "readFile e" "fileId sf" "filePath sf" "last ?h1"] rd
    by simp
  from at_snapshot[OF a1 this] have a2: "at i (?h1 @ [st]) 35" .
  show ?thesis
  proof (cases "errors = []")
    case True
    from a2 have "at i (?h1 @ [st]) 40" by (auto simp: at_def intro: running_weaken)
    from executionStage_finished[OF this] True rd \<open>resolveDeps opts\<close> show ?thesis
      by (simp add: dependencyStage_def Let_def)
  next
    case False
    have "finishedRun (jobStates i (putUpdate e i
                      (noUpdates\<lparr>u_status := Some ''failed'',
                                  u_errorMessage := Some (join ''; '' errors)\<rparr>) (?h1 @ [st])))"
      by (rule at_finish[OF a2]) (auto simp: noUpdates_def)
    with False rd \<open>resolveDeps opts\<close> show ?thesis
      by (simp add: dependencyStage_def Let_def)
  qed
qed

lemma processTransformation_finished:
  assumes "at i h0 10"
  shows "finishedRun (jobStates i (processTransformation e i xf sf opts h0))"
proof -
  let ?u1 = "noUpdates\<lparr>u_status := Some ''processing'', u_progress := Some ''10'',
                            u_statusMessage :=
                              Some (if validateWithXsd opts then ''Preparing XSD validation...''
                                    else ''Preparing transformation...'')\<rparr>"
  let ?h1 = "putUpdate e i ?u1 h0"
  have a1: "at i ?h1 10"
    by (rule at_putUpdate[OF assms, where p = "''10''"]) (auto simp: noUpdates_def)
  show ?thesis
  proof (cases "if validateWithXsd opts then xsdFile opts else None")
    case None
    from a1 have "at i ?h1 25" by (auto simp: at_def intro: running_weaken)
    from dependencyStage_finished[OF this] None show ?thesis
      by (simp add: processTransformation_def Let_def)
  next
    case (Some xsd)
    let ?u2 = "noUpdates\<lparr>u_progress := Some ''15'',
                                    u_statusMessage :=
                                      Some (''Validating XML against XSD schema (''
                                            @ originalName xsd @ '')...'')\<rparr>"
    let ?h2 = "putUpdate e i ?u2 ?h1"
    have a2: "at i ?h2 15"
      by (rule at_putUpdate[OF a1, where p = "''15''"]) (auto simp: noUpdates_def)
    show ?thesis
    proof (cases "vr_isValid (xsdCheck e (filePath xf) (filePath xsd))")
      case False
      have "finishedRun (jobStates i (putUpdate e i
                        (noUpdates\<lparr>u_status := Some ''failed'',
                                    u_errorMessage :=
                                      Some (''XSD Validation Failed: '' @
                                            (case vr_error (xsdCheck e (filePath xf) (filePath xsd)) of
                                               None \<Rightarrow> ''undefined'' | Some m \<Rightarrow> m))\<rparr>) ?h2))"
        by (rule at_finish[OF a2]) (auto simp: noUpdates_def)
      with False Some show ?thesis
        by (simp add: processTransformation_def Let_def)
    next
      case True
      let ?u3 = "noUpdates\<lparr>u_progress := Some ''25'',
                                       u_statusMessage :=
                                         Some (checkMark @
                                               '' XSD validation passed - XML schema compliant'')\<rparr>"
      have a3: "at i (putUpdate e i ?u3 ?h2) 25"
        by (rule at_putUpdate[OF a2, where p = "''25''"]) (auto simp: noUpdates_def)
      from dependencyStage_finished[OF a3] True Some show ?thesis
        by (simp add: processTransformation_def Let_def)
    qed
  qed
qed

lemma createTransformation_holds:
  assumes "createTransformation ins now st = (t, st1)"
  shows "getTransformation (transformationId t) st1 = Some t"
    and "files st1 = files st" and "dependencies st1 = dependencies st"
    and "status t = it_status ins" and "progress t = orNull (it_progress ins)"
    and "completedAt t = None" and "errorMessage t = orNull (it_errorMessage ins)"
  using assms
  by (auto simp: createTransformation_def Let_def getTransformation_def map_of_mapSet)

lemma startTransformation_Started:
  assumes "startTransformation e rq st = (Started t, h)"
  shows "\<exists>st1 xf sf opts. h = processTransformation e (transformationId t) xf sf opts [st1] \<and>
           getTransformation (transformationId t) st1 = Some t \<and> files st1 = files st \<and>
           status t = ''queued'' \<and> progress t = Some ''0'' \<and> completedAt t = None \<and>
           errorMessage t = None"
proof -
  from assms obtain xmlId xslId xf sf where ids: "rq_xmlFileId rq = Some xmlId" "rq_xslFileId rq = Some xslId"
    "getFile xmlId st = Some xf" "getFile xslId st = Some sf"
    by (auto simp: startTransformation_def split: option.splits if_splits prod.splits)
  let ?ins = "\<lparr>it_xmlFileId = xmlId, it_xslFileId = xslId,
                                     it_xsdFileId = (if rq_validateWithXsd rq
                                                     then rq_xsdFileId rq else None),
                                     it_status = ''queued'', it_progress = Some ''0'',
                                     it_statusMessage = None, it_resultPath = None,
                                     it_errorMessage = None, it_processingTime = None,
                                     it_outputSize = None\<rparr>"
  obtain t' st1 where c: "createTransformation ?ins (clock e 0) st = (t', st1)"
    by (cases "createTransformation ?ins (clock e 0) st")
  from assms ids c have tt: "t' = t" and
    h: "h = processTransformation e (transformationId t) xf sf
                         \<lparr>validateXml = rq_validateXml rq, resolveDeps = rq_resolveDeps rq,
                          generatePreview = rq_generatePreview rq,
                          validateWithXsd = rq_validateWithXsd rq, xsdFile = (if rq_validateWithXsd rq
                              then (case rq_xsdFileId rq of Some x \<Rightarrow> getFile x st
                                    | None \<Rightarrow> None)
                              else None)\<rparr>
                         [st1]"
    by (auto simp: startTransformation_def Let_def split: if_splits)
  from createTransformation_holds[OF c] tt h show ?thesis
    by (auto simp: orNull_def)
qed

lemma at_created:
  assumes "getTransformation i st1 = Some t" "status t = ''queued''" "progress t = Some ''0''"
    "completedAt t = None" "errorMessage t = None"
  shows "at i [st1] 0"
  using assms
  by (auto simp: at_def holds_def jobStates_single running_def nonTerminal_def percent_def
                 digitValue_def)

lemma startTransformation_finished:
  assumes "startTransformation e rq st = (Started t, h)"
  shows "finishedRun (jobStates (transformationId t) h)"
proof -
  from startTransformation_Started[OF assms] obtain st1 xf sf opts where
    h: "h = processTransformation e (transformationId t) xf sf opts [st1]"
    and t: "getTransformation (transformationId t) st1 = Some t" "status t = ''queued''"
       "progress t = Some ''0''" "completedAt t = None" "errorMessage t = None"
    by blast
  from at_created[OF t] have "at (transformationId t) [st1] 10"
    by (auto simp: at_def intro: running_weaken)
  from processTransformation_finished[OF this] h show ?thesis by simp
qed

lemma putUpdate_files [simp]: "files (last (putUpdate e i u h)) = files (last h)"
  by (simp add: putUpdate_def updateTransformation_def Let_def split: option.splits)

lemma executionStage_throws:
  assumes "h0 \<noteq> []" "getTransformation i (last h0) = Some t0"
    and "processXsltTransformation e (last h0) (filePath xf) (filePath sf) (outputPathFor e i) = Inl x"
  shows "status (last (jobStates i (executionStage e i xf sf opts st0 h0))) = ''failed'' \<and>
         progress (last (jobStates i (executionStage e i xf sf opts st0 h0))) = Some ''0'' \<and>
         statusMessage (last (jobStates i (executionStage e i xf sf opts st0 h0))) =
           Some ''Transformation failed'' \<and>
         errorMessage (last (jobStates i (executionStage e i xf sf opts st0 h0))) =
           Some (messageOr ''Unknown error'' x)"
proof -
  let ?u1 = "noUpdates\<lparr>u_progress := Some (if validateWithXsd opts \<or> resolveDeps opts
                                                 then ''50'' else ''40''),
                            u_statusMessage := Some ''Parsing XML and XSL files...''\<rparr>"
  let ?h1 = "putUpdate e i ?u1 h0"
  let ?u2 = "noUpdates\<lparr>u_progress := Some ''60'',
                            u_statusMessage :=
                              Some (''Executing XSLT transformation ('' @ originalName xf
                                    @ '' + '' @ originalName sf @ '')...'')\<rparr>"
  let ?h2 = "putUpdate e i ?u2 ?h1"
  let ?u3 = "noUpdates\<lparr>u_status := Some ''failed'', u_progress := Some ''0'',
                           u_statusMessage := Some ''Transformation failed'',
                           u_errorMessage := Some (messageOr ''Unknown error'' x)\<rparr>"
  from assms(1,2) have "holds i h0 t0" by (simp add: holds_def)
  from putUpdate_holds(1)[OF this] obtain t1 where "holds i ?h1 t1" by blast
  from putUpdate_holds(1)[OF this] obtain t2 where h2: "holds i ?h2 t2" by blast
  have "processXsltTransformation e (last ?h2) (filePath xf) (filePath sf) (outputPathFor e i) = Inl x"
    using assms(3) processXsltTransformation_files[of "last ?h2" "last h0"] by simp
  then have ex: "executionStage e i xf sf opts st0 h0 = putUpdate e i ?u3 ?h2"
    by (simp add: executionStage_def Let_def)
  have "last (jobStates i (putUpdate e i ?u3 ?h2)) = applied ?u3 (clock e (length ?h2)) t2"
    using putUpdate_holds(2)[OF h2] by simp
  then show ?thesis unfolding ex
    by (simp add: applied_fields orKeep_def noUpdates_def)
qed

lemma primaryAttempt_error: "primaryAttempt e a b c = Inl x \<Longrightarrow> \<exists>m. x = Error m"
  by (auto simp: primaryAttempt_def Let_def split: if_splits option.splits)

lemma resolveDependencies_files:
  "files (snd (resolveDependencies rd x p st)) = files st"
proof (cases "rd p")
  case (Inl a)
  then show ?thesis by (simp add: resolveDependencies_def)
next
  case (Inr xsl)
  from resolveLoop_spec[of x xsl "[]" st] obtain new where
    "snd (resolveLoop x xsl [] st) = st\<lparr>dependencies := dependencies st @ new\<rparr>" by blast
  with Inr show ?thesis by (simp add: resolveDependencies_def)
qed

text \<open>Two environments that differ at most in the engines and in writing files.\<close>

definition sameCollaborators :: "env \<Rightarrow> env \<Rightarrow> bool" where
  "sameCollaborators e e' =
     (clock e' = clock e \<and> readFile e' = readFile e \<and> xsdCheck e' = xsdCheck e \<and>
      outputPathFor e' = outputPathFor e \<and> formatKB e' = formatKB e \<and>
      formatSeconds e' = formatSeconds e)"

lemma putUpdate_same: "sameCollaborators e e' \<Longrightarrow> putUpdate e' i u h = putUpdate e i u h"
  by (simp add: putUpdate_def sameCollaborators_def)

lemma executionStage_same:
  assumes s: "sameCollaborators e e'"
    and x: "\<And>st. files st = files (last h) \<Longrightarrow>
              processXsltTransformation e' st (filePath xf) (filePath sf) (outputPathFor e i) =
              processXsltTransformation e st (filePath xf) (filePath sf) (outputPathFor e i)"
  shows "executionStage e' i xf sf opts st0 h = executionStage e i xf sf opts st0 h"
proof -
  from s have f: "outputPathFor e' = outputPathFor e" "formatKB e' = formatKB e"
    "formatSeconds e' = formatSeconds e" "clock e' = clock e"
    by (simp_all add: sameCollaborators_def)
  show ?thesis
    unfolding executionStage_def Let_def putUpdate_same[OF s] f
    by (simp add: x cong: sum.case_cong)
qed

lemma dependencyStage_same:
  assumes s: "sameCollaborators e e'"
    and x: "\<And>st. files st = files (last h) \<Longrightarrow>
              processXsltTransformation e' st (filePath xf) (filePath sf) (outputPathFor e i) =
              processXsltTransformation e st (filePath xf) (filePath sf) (outputPathFor e i)"
  shows "dependencyStage e' i xf sf opts st0 h = dependencyStage e i xf sf opts st0 h"
proof -
  from s have f: "readFile e' = readFile e" by (simp add: sameCollaborators_def)
  have a: "executionStage e' i xf sf opts st0 h = executionStage e i xf sf opts st0 h"
    by (rule executionStage_same[OF s x])
  have b: "\<And>u st. files st = files (last h) \<Longrightarrow>
             executionStage e' i xf sf opts st0 (putUpdate e i u h @ [st]) =
             executionStage e i xf sf opts st0 (putUpdate e i u h @ [st])"
    by (rule executionStage_same[OF s]) (simp add: x)
  show ?thesis
    unfolding dependencyStage_def Let_def putUpdate_same[OF s] f
    using a b resolveDependencies_files
    by (auto split: prod.splits simp: prod_eq_iff)
qed

lemma processTransformation_same:
  assumes s: "sameCollaborators e e'"
    and x: "\<And>st. files st = files (last h) \<Longrightarrow>
              processXsltTransformation e' st (filePath xf) (filePath sf) (outputPathFor e i) =
              processXsltTransformation e st (filePath xf) (filePath sf) (outputPathFor e i)"
  shows "processTransformation e' i xf sf opts h = processTransformation e i xf sf opts h"
proof -
  from s have f: "xsdCheck e' = xsdCheck e" "clock e' = clock e" by (simp_all add: sameCollaborators_def)
  have d: "\<And>h'. files (last h') = files (last h) \<Longrightarrow>
             dependencyStage e' i xf sf opts (clock e (length h)) h' =
             dependencyStage e i xf sf opts (clock e (length h)) h'"
    by (rule dependencyStage_same[OF s]) (simp add: x)
  show ?thesis
  proof (cases "if validateWithXsd opts then xsdFile opts else None")
    case None
    then show ?thesis
      unfolding processTransformation_def Let_def putUpdate_same[OF s] f
      by (simp add: d)
  next
    case (Some xsd)
    then show ?thesis
      unfolding processTransformation_def Let_def putUpdate_same[OF s] f
      by (cases "vr_isValid (xsdCheck e (filePath xf) (filePath xsd))") (simp_all add: d)
  qed
qed

lemma fallback_success_same_history:
  assumes "primaryAttempt e (filePath xf) (filePath sf) (outputPathFor e i) = Inl x"
    and "fallbackAttempt e (last h) (filePath xf) (filePath sf) (outputPathFor e i) = Inr w"
    and "primaryAttempt (e\<lparr>saxonGetResource := g, saxonRun := r\<rparr>) (filePath xf) (filePath sf)
           (outputPathFor e i) = Inr w"
  shows "processTransformation e i xf sf opts h =
         processTransformation (e\<lparr>saxonGetResource := g, saxonRun := r\<rparr>) i xf sf opts h"
proof -
  let ?e' = "e\<lparr>saxonGetResource := g, saxonRun := r\<rparr>"
  have s: "sameCollaborators e ?e'" by (simp add: sameCollaborators_def)
  have "\<And>st. files st = files (last h) \<Longrightarrow>
              processXsltTransformation ?e' st (filePath xf) (filePath sf) (outputPathFor e i) =
              processXsltTransformation e st (filePath xf) (filePath sf) (outputPathFor e i)"
  proof -
    fix st :: storage
    assume f: "files st = files (last h)"
    have fb: "fallbackAttempt e st (filePath xf) (filePath sf) (outputPathFor e i) = Inr w"
      using fallbackAttempt_files[OF f, of e] assms(2) by simp
    have l: "processXsltTransformation ?e' st (filePath xf) (filePath sf) (outputPathFor e i) = Inr w"
      using assms(3) by (simp add: processXsltTransformation_def)
    have r: "processXsltTransformation e st (filePath xf) (filePath sf) (outputPathFor e i) = Inr w"
      using assms(1) fb by (simp add: processXsltTransformation_def)
    from l r show "processXsltTransformation ?e' st (filePath xf) (filePath sf) (outputPathFor e i) =
              processXsltTransformation e st (filePath xf) (filePath sf) (outputPathFor e i)"
      by simp
  qed
  from processTransformation_same[OF s this] show ?thesis by simp
qed

text \<open>
  Claim C2. Along the observed states of every job started by the route, a state that is
  terminal (completed or failed) is followed by no state with another status or another
  completion timestamp; the completion timestamp is set exactly in the terminal states;
  every state before the last is not terminal, and the last one is.
\<close>

theorem C2_terminal_state_is_final:
  assumes "startTransformation e rq st = (Started t, h)"
  shows "jobStates (transformationId t) h \<noteq> [] \<and>
         (\<forall>j k. j < k \<and> k < length (jobStates (transformationId t) h) \<and>
                (status (jobStates (transformationId t) h ! j) = ''completed'' \<or>
                 status (jobStates (transformationId t) h ! j) = ''failed'') \<longrightarrow>
                status (jobStates (transformationId t) h ! k) =
                  status (jobStates (transformationId t) h ! j) \<and>
                completedAt (jobStates (transformationId t) h ! k) =
                  completedAt (jobStates (transformationId t) h ! j)) \<and>
         (\<forall>s \<in> set (jobStates (transformationId t) h).
            (completedAt s \<noteq> None) = (status s = ''completed'' \<or> status s = ''failed'')) \<and>
         (\<forall>s \<in> set (butlast (jobStates (transformationId t) h)).
            status s \<noteq> ''completed'' \<and> status s \<noteq> ''failed'') \<and>
         (status (last (jobStates (transformationId t) h)) = ''completed'' \<or>
          status (last (jobStates (transformationId t) h)) = ''failed'')"
proof -
  let ?ts = "jobStates (transformationId t) h"
  from startTransformation_finished[OF assms] obtain pre fin where
    ts: "?ts = pre @ [fin]" and pre: "\<forall>s \<in> set pre. nonTerminal s"
    and fin: "completedAt fin \<noteq> None" "status fin = ''completed'' \<or> status fin = ''failed''"
    by (auto simp: finishedRun_def running_def)
  have early: "\<And>j. j < length pre \<Longrightarrow> nonTerminal (?ts ! j)"
    using pre ts by (simp add: nth_append)
  have a: "\<forall>j k. j < k \<and> k < length ?ts \<and>
                (status (?ts ! j) = ''completed'' \<or> status (?ts ! j) = ''failed'') \<longrightarrow>
                status (?ts ! k) = status (?ts ! j) \<and> completedAt (?ts ! k) = completedAt (?ts ! j)"
  proof (intro allI impI)
    fix j k
    assume jk: "j < k \<and> k < length ?ts \<and>
                (status (?ts ! j) = ''completed'' \<or> status (?ts ! j) = ''failed'')"
    then have "j < length pre" using ts by simp
    from early[OF this] jk show "status (?ts ! k) = status (?ts ! j) \<and>
        completedAt (?ts ! k) = completedAt (?ts ! j)"
      by (simp add: nonTerminal_def)
  qed
  have b: "\<forall>s \<in> set ?ts. (completedAt s \<noteq> None) = (status s = ''completed'' \<or> status s = ''failed'')"
    using pre fin ts by (auto simp: nonTerminal_def)
  have c: "\<forall>s \<in> set (butlast ?ts). status s \<noteq> ''completed'' \<and> status s \<noteq> ''failed''"
    using pre ts by (auto simp: nonTerminal_def)
  have d: "?ts \<noteq> []" using ts by simp
  have e: "status (last ?ts) = ''completed'' \<or> status (last ?ts) = ''failed''"
    using fin(2) ts by simp
  show ?thesis
    apply (intro conjI)
        apply (rule d)
       apply (rule a)
      apply (rule b)
     apply (rule c)
    apply (rule e)
    done
qed

text \<open>
  Claim C4. When the primary attempt throws \<open>x\<close> and the fallback attempt throws too,
  the executor throws \<open>x\<close>, the error of the primary attempt, and the job is set to failed
  with the message of \<open>x\<close> as its error message, whatever the fallback threw.
\<close>

theorem C4_primary_error_is_reported:
  assumes "primaryAttempt e (filePath xf) (filePath sf) (outputPathFor e i) = Inl x"
    and "fallbackAttempt e (last h0) (filePath xf) (filePath sf) (outputPathFor e i) = Inl y"
    and "h0 \<noteq> []" and "getTransformation i (last h0) = Some t0"
  shows "processXsltTransformation e (last h0) (filePath xf) (filePath sf) (outputPathFor e i) = Inl x \<and>
         status (last (jobStates i (executionStage e i xf sf opts st0 h0))) = ''failed'' \<and>
         (\<exists>m. x = Error m \<and>
              errorMessage (last (jobStates i (executionStage e i xf sf opts st0 h0))) = Some m)"
proof -
  from assms(1,2)
  have p: "processXsltTransformation e (last h0) (filePath xf) (filePath sf) (outputPathFor e i) = Inl x"
    by (simp add: processXsltTransformation_def)
  from primaryAttempt_error[OF assms(1)] obtain m where m: "x = Error m" by blast
  from executionStage_throws[OF assms(3,4) p, of opts st0] m p show ?thesis
    by (simp add: messageOr_def)
qed



text \<open>
  Claim C3, as the code has it. A run in which the primary attempt fails and the fallback
  attempt succeeds leaves exactly the history of the registry that a run leaves in which
  the primary attempt succeeds with the same output: the job is recorded as completed in
  the same way, and nothing in the registry marks the result as degraded.
\<close>

theorem C3_fallback_success_recorded_as_primary:
  assumes "primaryAttempt e (filePath xf) (filePath sf) (outputPathFor e i) = Inl x"
    and "fallbackAttempt e (last h) (filePath xf) (filePath sf) (outputPathFor e i) = Inr w"
    and "primaryAttempt (e\<lparr>saxonGetResource := g, saxonRun := r\<rparr>) (filePath xf) (filePath sf)
           (outputPathFor e i) = Inr w"
  shows "processTransformation e i xf sf opts h =
         processTransformation (e\<lparr>saxonGetResource := g, saxonRun := r\<rparr>) i xf sf opts h"
  using assms by (rule fallback_success_same_history)











section \<open>Properties of the normalizer\<close>





section \<open>Concrete runs\<close>

definition xmlFile0 :: storedFile where
  "xmlFile0 = \<lparr>fileId = 1, filename = ''3f9c'', originalName = ''a.xml'',
                mimeType = ''text/xml'', fileSize = ''4'', filePath = ''uploads/1_a.xml'',
                uploadedAt = 0, validationStatus = ''valid'', validationError = None,
                validatedAt = Some 1\<rparr>"

definition xslFile0 :: storedFile where
  "xslFile0 = \<lparr>fileId = 2, filename = ''8b21'', originalName = ''s.xsl'',
                mimeType = ''text/xsl'', fileSize = ''17'', filePath = ''uploads/2_s.xsl'',
                uploadedAt = 0, validationStatus = ''valid'', validationError = None,
                validatedAt = Some 1\<rparr>"

definition registry2 :: storage where
  "registry2 = \<lparr>files = [(1, xmlFile0), (2, xslFile0)], transformations = [], dependencies = []\<rparr>"

definition env0 :: env where
  "env0 = \<lparr>clock = (\<lambda>k. 100 * k),
            readFile = (\<lambda>p. if p = ''uploads/1_a.xml'' then Inr ''<a/>''
                             else if p = ''uploads/2_s.xsl'' then Inr ''<xsl:stylesheet/>''
                             else Inl (Error ''ENOENT'')),
            writeFile = (\<lambda>p c. None),
            xsdCheck = (\<lambda>a b. \<lparr>vr_isValid = True, vr_error = None\<rparr>),
            saxonGetResource = (\<lambda>p. None),
            saxonRun = (\<lambda>a b. Inr ''<html/>''),
            xsltProcess = (\<lambda>a b. Inr ''<html/>''),
            outputPathFor = (\<lambda>i. ''uploads/out_transformed.html''),
            formatKB = (\<lambda>n. ''0.0''),
            formatSeconds = (\<lambda>n. ''0.4'')\<rparr>"

definition envBothFail :: env where
  "envBothFail = env0\<lparr>saxonRun := (\<lambda>a b. Inl (Error ''XTSE0010'')),
                       xsltProcess := (\<lambda>a b. Inl (Error ''unsupported element''))\<rparr>"

definition envFallback :: env where
  "envFallback = env0\<lparr>saxonGetResource := (\<lambda>p. Some (Error ''not well-formed''))\<rparr>"

definition rqPlain :: transformRequest where
  "rqPlain = \<lparr>rq_xmlFileId = Some 1, rq_xslFileId = Some 2, rq_xsdFileId = None,
              rq_validateXml = True, rq_resolveDeps = False, rq_generatePreview = False,
              rq_validateWithXsd = False\<rparr>"

definition optsPlain :: options where
  "optsPlain = \<lparr>validateXml = True, resolveDeps = False, generatePreview = False,
                validateWithXsd = False, xsdFile = None\<rparr>"

definition job0 :: transformation where
  "job0 = \<lparr>transformationId = 3, xmlFileId = 1, xslFileId = 2, xsdFileId = None,
            status = ''queued'', progress = Some ''0'', statusMessage = None, resultPath = None,
            errorMessage = None, processingTime = None, outputSize = None, createdAt = 0,
            completedAt = None\<rparr>"

definition registryJob :: storage where
  "registryJob = registry2\<lparr>transformations := [(3, job0)]\<rparr>"

text \<open>What is read of a job state in the runs below.\<close>

definition summary :: "transformation \<Rightarrow> string \<times> string option \<times> string option \<times> timestamp option" where
  "summary t = (status t, progress t, errorMessage t, completedAt t)"

lemma route_plain:
  "clock e 0 = 0 \<Longrightarrow>
   startTransformation e rqPlain registry2 =
     (Started job0, processTransformation e 3 xmlFile0 xslFile0 optsPlain [registryJob])"
  by (simp add: startTransformation_def rqPlain_def registry2_def getFile_def
        createTransformation_def randomUUID_def usedIds_def orNull_def job0_def optsPlain_def
        registryJob_def Let_def numeral_3_eq_3)

lemma run_env0:
  "map summary (jobStates 3 (processTransformation env0 3 xmlFile0 xslFile0 optsPlain [registryJob])) =
     [(''queued'', Some ''0'', None, None), (''processing'', Some ''10'', None, None),
      (''processing'', Some ''40'', None, None), (''processing'', Some ''60'', None, None),
      (''processing'', Some ''85'', None, None), (''completed'', Some ''100'', None, Some 500)]"
  by code_simp


lemma env_clock0 [simp]: "clock env0 0 = 0" "clock envBothFail 0 = 0" "clock envFallback 0 = 0"
  by (simp_all add: env0_def envBothFail_def envFallback_def)

lemma summaries:
  assumes "map summary ts = xs"
  shows "map status ts = map fst xs"
    and "map progress ts = map (\<lambda>x. fst (snd x)) xs"
    and "map errorMessage ts = map (\<lambda>x. fst (snd (snd x))) xs"
    and "map completedAt ts = map (\<lambda>x. snd (snd (snd x))) xs"
    and "map percent ts = map (\<lambda>x. case fst (snd x) of None \<Rightarrow> 0 | Some p \<Rightarrow> pct p) xs"
  using assms by (auto simp: summary_def percent_def pct_def split: option.splits)



theorem C2_terminal_state_is_final_witness:
  "startTransformation env0 rqPlain registry2 =
     (Started job0, processTransformation env0 3 xmlFile0 xslFile0 optsPlain [registryJob]) \<and>
   map status (jobStates 3 (processTransformation env0 3 xmlFile0 xslFile0 optsPlain [registryJob])) =
     [''queued'', ''processing'', ''processing'', ''processing'', ''processing'', ''completed''] \<and>
   map completedAt (jobStates 3 (processTransformation env0 3 xmlFile0 xslFile0 optsPlain [registryJob])) =
     [None, None, None, None, None, Some 500] \<and>
   (status (last (jobStates 3
      (processTransformation env0 3 xmlFile0 xslFile0 optsPlain [registryJob]))) = ''completed'' \<or>
    status (last (jobStates 3
      (processTransformation env0 3 xmlFile0 xslFile0 optsPlain [registryJob]))) = ''failed'')"
proof -
  have h: "startTransformation env0 rqPlain registry2 =
     (Started job0, processTransformation env0 3 xmlFile0 xslFile0 optsPlain [registryJob])"
    by (rule route_plain) simp
  from C2_terminal_state_is_final[OF h] h show ?thesis
    by (simp add: summaries[OF run_env0] job0_def)
qed

theorem C4_primary_error_is_reported_witness:
  "primaryAttempt envBothFail (filePath xmlFile0) (filePath xslFile0) (outputPathFor envBothFail 3) =
     Inl (Error ''Saxon transformation failed: XTSE0010'') \<and>
   fallbackAttempt envBothFail (last [registryJob]) (filePath xmlFile0) (filePath xslFile0)
     (outputPathFor envBothFail 3) = Inl (Error ''unsupported element'') \<and>
   errorMessage (last (jobStates 3
     (executionStage envBothFail 3 xmlFile0 xslFile0 optsPlain 0 [registryJob]))) =
     Some ''Saxon transformation failed: XTSE0010''"
proof -
  have p: "primaryAttempt envBothFail (filePath xmlFile0) (filePath xslFile0) (outputPathFor envBothFail 3) =
     Inl (Error ''Saxon transformation failed: XTSE0010'')"
    by (simp add: primaryAttempt_def validateXmlWellFormedness_def transform_def envBothFail_def
          env0_def Let_def messageOr_def)
  have f: "fallbackAttempt envBothFail (last [registryJob]) (filePath xmlFile0) (filePath xslFile0)
     (outputPathFor envBothFail 3) = Inl (Error ''unsupported element'')"
    by (simp add: fallbackAttempt_def envBothFail_def env0_def xmlFile0_def xslFile0_def Let_def)
  have g: "[registryJob] \<noteq> []" "getTransformation 3 (last [registryJob]) = Some job0"
    by (simp_all add: getTransformation_def registryJob_def)
  from C4_primary_error_is_reported[OF p f g, of optsPlain 0] p f show ?thesis by simp
qed

lemma env0_from_envFallback:
  "envFallback\<lparr>saxonGetResource := (\<lambda>p. None), saxonRun := (\<lambda>a b. Inr ''<html/>'')\<rparr> = env0"
  by (simp add: envFallback_def env0_def)

lemma attempts_envFallback:
  "primaryAttempt envFallback (filePath xmlFile0) (filePath xslFile0) (outputPathFor envFallback 3) =
     Inl (Error ''XML validation failed: not well-formed'')"
  "fallbackAttempt envFallback (last [registryJob]) (filePath xmlFile0) (filePath xslFile0)
     (outputPathFor envFallback 3) = Inr ''<html/>''"
  "primaryAttempt (envFallback\<lparr>saxonGetResource := (\<lambda>p. None),
                              saxonRun := (\<lambda>a b. Inr ''<html/>'')\<rparr>)
     (filePath xmlFile0) (filePath xslFile0) (outputPathFor envFallback 3) = Inr ''<html/>''"
  by (simp_all add: primaryAttempt_def fallbackAttempt_def validateXmlWellFormedness_def
        transform_def envFallback_def env0_def xmlFile0_def xslFile0_def Let_def messageOr_def)

theorem C3_fallback_success_recorded_as_primary_witness:
  "primaryAttempt envFallback (filePath xmlFile0) (filePath xslFile0) (outputPathFor envFallback 3) =
     Inl (Error ''XML validation failed: not well-formed'') \<and>
   fallbackAttempt envFallback (last [registryJob]) (filePath xmlFile0) (filePath xslFile0)
     (outputPathFor envFallback 3) = Inr ''<html/>'' \<and>
   map summary (jobStates 3 (processTransformation envFallback 3 xmlFile0 xslFile0 optsPlain [registryJob])) =
     [(''queued'', Some ''0'', None, None), (''processing'', Some ''10'', None, None),
      (''processing'', Some ''40'', None, None), (''processing'', Some ''60'', None, None),
      (''processing'', Some ''85'', None, None), (''completed'', Some ''100'', None, Some 500)]"
  using C3_fallback_success_recorded_as_primary[OF attempts_envFallback, of optsPlain]
    attempts_envFallback(1,2) run_env0
  by (simp add: env0_from_envFallback)

text \<open>
  A run through the fallback engine and a run through the primary engine with the same
  history of the registry.
\<close>

theorem C3_no_degraded_marker_counterexample:
  "primaryAttempt envFallback (filePath xmlFile0) (filePath xslFile0) (outputPathFor envFallback 3) =
     Inl (Error ''XML validation failed: not well-formed'') \<and>
   fallbackAttempt envFallback registryJob (filePath xmlFile0) (filePath xslFile0)
     (outputPathFor envFallback 3) = Inr ''<html/>'' \<and>
   primaryAttempt env0 (filePath xmlFile0) (filePath xslFile0) (outputPathFor env0 3) =
     Inr ''<html/>'' \<and>
   processTransformation envFallback 3 xmlFile0 xslFile0 optsPlain [registryJob] =
     processTransformation env0 3 xmlFile0 xslFile0 optsPlain [registryJob] \<and>
   map status (jobStates 3 (processTransformation env0 3 xmlFile0 xslFile0 optsPlain [registryJob])) =
     [''queued'', ''processing'', ''processing'', ''processing'', ''processing'', ''completed'']"
proof -
  have o: "outputPathFor env0 3 = outputPathFor envFallback 3"
    by (simp add: envFallback_def)
  from fallback_success_same_history[OF attempts_envFallback, of optsPlain]
  have "processTransformation envFallback 3 xmlFile0 xslFile0 optsPlain [registryJob] =
     processTransformation env0 3 xmlFile0 xslFile0 optsPlain [registryJob]"
    by (simp add: env0_from_envFallback)
  with attempts_envFallback show ?thesis
    by (simp add: env0_from_envFallback o summaries(1)[OF run_env0])
qed
















definition stylesheetW2 :: string where
  "stylesheetW2 =
     ''<xsl:stylesheet><xsl:include href='' @ [dq] @ ''W2CMStyle.xsl'' @ [dq]
     @ ''/></xsl:stylesheet>''"

definition registryW2 :: storage where
  "registryW2 =
     \<lparr>files = [(1, xmlFile0),
               (2, xslFile0\<lparr>originalName := ''W2.xsl''\<rparr>),
               (3, \<lparr>fileId = 3, filename = ''d0e5'', originalName = ''W2Style.xsl'',
                    mimeType = ''text/xsl'', fileSize = ''120'',
                    filePath = ''uploads/3_W2Style.xsl'', uploadedAt = 0,
                    validationStatus = ''valid'', validationError = None,
                    validatedAt = Some 1\<rparr>)],
      transformations = [], dependencies = []\<rparr>"

definition diskW2 :: fileSystem where
  "diskW2 p = (if p = ''uploads/2_s.xsl'' then Inr stylesheetW2 else Inl (Error ''ENOENT''))"

text \<open>
  Claim C7 at a stylesheet that includes \<open>W2CMStyle.xsl\<close> while the registry holds
  \<open>W2Style.xsl\<close>: the matching of \<open>resolveXslIncludes\<close> finds the stored file, but
  \<open>resolveDependencies\<close>, which compares the reference with the original name and the
  stored name only, records the dependency as missing and reports an error.
\<close>

theorem C7_fuzzy_reference_recorded_missing:
  "directives stylesheetW2 = [(''include'', ''W2CMStyle.xsl'')] \<and>
   map_option originalName (findDependencyFile ''W2CMStyle.xsl'' (getAllFiles registryW2)) =
     Some ''W2Style.xsl'' \<and>
   fst (resolveDependencies diskW2 2 ''uploads/2_s.xsl'' registryW2) =
     [''Missing dependency: W2CMStyle.xsl''] \<and>
   map (\<lambda>d. (dependencyPath d, depStatus d, resolvedFileId d))
     (getDependenciesByXslFile 2 (snd (resolveDependencies diskW2 2 ''uploads/2_s.xsl'' registryW2))) =
     [(''W2CMStyle.xsl'', ''missing'', None)]"
  by code_simp









end
